theory Spec2Isabelle
  imports
    Main
    "HOL-Library.Char_ord"
    "HOL-Library.List_Lexorder"
    "HOL-Library.Product_Lexorder"
    "HOL-Library.Sublist"
    "HOL-Library.Multiset"
    "HOL-Library.AList"
begin

section \<open>Strings\<close>

text \<open>
  Go strings are byte sequences; they are modelled as \<^typ>\<open>string\<close>. Comparison with
  \<open><\<close> is the bytewise lexicographic order, as Go's. The names and texts that the
  program handles come from the DNS codec in presentation format, which is ASCII (the
  codec writes every other byte as a backslash and three digits). \<open>strings.ToLower\<close>
  is modelled on ASCII strings only, where it maps \<open>A..Z\<close> to \<open>a..z\<close> and leaves
  every other byte alone; on a string with a byte above 127 the function of the
  library works on code points, and \<open>ToLower\<close> below does not stand for it.
\<close>

definition ToLower_char :: "char \<Rightarrow> char" where
  "ToLower_char c =
     (if CHR ''A'' \<le> c \<and> c \<le> CHR ''Z'' then char_of (of_char c + (32::nat)) else c)"

definition ToLower :: "string \<Rightarrow> string" where
  "ToLower s = map ToLower_char s"

text \<open>\<open>strings.Join(a, sep)\<close>.\<close>

fun Join :: "string list \<Rightarrow> string \<Rightarrow> string" where
  "Join [] sep = []"
| "Join [a] sep = a"
| "Join (a # b # rest) sep = a @ sep @ Join (b # rest) sep"

text \<open>
  \<open>strings.FieldsFunc(s, f)\<close>: the maximal runs of characters that do not satisfy
  \<open>f\<close>, in order; empty runs are not fields. The second argument of the loop is the
  field being read (empty when the scan is between fields).
\<close>

fun FieldsFunc_loop :: "(char \<Rightarrow> bool) \<Rightarrow> string \<Rightarrow> string \<Rightarrow> string list" where
  "FieldsFunc_loop f cur [] = (if cur = [] then [] else [cur])"
| "FieldsFunc_loop f cur (c # cs) =
     (if f c then (if cur = [] then FieldsFunc_loop f [] cs
                   else cur # FieldsFunc_loop f [] cs)
      else FieldsFunc_loop f (cur @ [c]) cs)"

definition FieldsFunc :: "string \<Rightarrow> (char \<Rightarrow> bool) \<Rightarrow> string list" where
  "FieldsFunc s f = FieldsFunc_loop f [] s"

text \<open>\<open>strings.HasSuffix(s, suffix)\<close>.\<close>

definition HasSuffix :: "string \<Rightarrow> string \<Rightarrow> bool" where
  "HasSuffix s suf = suffix suf s"

text \<open>\<open>hex.Encode\<close>: two lowercase hexadecimal digits per byte.\<close>

definition hex_digit :: "nat \<Rightarrow> char" where
  "hex_digit n = ''0123456789abcdef'' ! (n mod 16)"

definition hex_Encode :: "string \<Rightarrow> string" where
  "hex_Encode bs =
     concat (map (\<lambda>b. [hex_digit ((of_char b :: nat) div 16), hex_digit (of_char b mod 16)]) bs)"

text \<open>The verb \<open>%d\<close> of \<open>fmt\<close> on an unsigned integer, and \<open>%06d\<close>.\<close>

fun digits :: "nat \<Rightarrow> string" where
  "digits n = (if n < 10 then [char_of (48 + n)]
               else digits (n div 10) @ [char_of (48 + n mod 10)])"

declare digits.simps [simp del]

definition fmt_06d :: "nat \<Rightarrow> string" where
  "fmt_06d n = replicate (6 - length (digits n)) (CHR ''0'') @ digits n"

section \<open>Query obfuscation\<close>

text \<open>
  \<open>obfuscate_query\<close> of ymmv.go. The package variable \<open>obfuscate_secret\<close> is passed in
  and returned (\<open>None\<close> is the nil slice). \<open>Sum256\<close> stands for \<open>sha256.Sum256\<close> of the
  standard library and \<open>rand_Read\<close> for the eight bytes that \<open>math/rand\<close>'s \<open>Read\<close>
  stores in the fresh secret (it fills the buffer and returns no error, so the two
  \<open>log.Fatalf\<close> branches are not reachable). Log output is not modelled.
\<close>

definition obfuscate_query ::
  "(string \<Rightarrow> string) \<Rightarrow> string \<Rightarrow> string option \<Rightarrow> string \<Rightarrow> string \<times> string option" where
  "obfuscate_query Sum256 rand_Read obfuscate_secret qname_in =
     (let labels = FieldsFunc qname_in (\<lambda>r. r = CHR ''.'') in
      if length labels < 2 then (ToLower (Join labels ''.'') @ ''.'', obfuscate_secret)
      else
        let secret = (case obfuscate_secret of None \<Rightarrow> rand_Read | Some s \<Rightarrow> s);
            hash_input = secret @ ToLower (Join labels ''.'');
            hashed = Sum256 hash_input;
            hashed_hex = hex_Encode hashed;
            qname_out = ''ymmv.'' @ take 16 hashed_hex @ ''.''
        in (qname_out @ ToLower (Join (drop (length labels - 1) labels) ''.'') @ ''.'',
            Some secret))"

text \<open>
  The contract of the obfuscator in the words of the specification. The labels of a
  name are those of its presentation form, as the codec writes it: a backslash escapes
  the character after it, and a dot that is not escaped ends a label; the root name has
  no label. The name without its trailing dot is hashed, and a name with fewer than
  two labels comes back lowercased and fully qualified.
\<close>

fun dns_labels_loop :: "string \<Rightarrow> string \<Rightarrow> string list" where
  "dns_labels_loop cur [] = (if cur = [] then [] else [cur])"
| "dns_labels_loop cur [c] =
     (if c = CHR ''.'' then (if cur = [] then [] else [cur]) else [cur @ [c]])"
| "dns_labels_loop cur (c # d # ds) =
     (if c = CHR 0x5C then dns_labels_loop (cur @ [c, d]) ds
      else if c = CHR ''.''
      then (if cur = [] then dns_labels_loop [] (d # ds) else cur # dns_labels_loop [] (d # ds))
      else dns_labels_loop (cur @ [c]) (d # ds))"

definition labels :: "string \<Rightarrow> string list" where
  "labels name = dns_labels_loop [] name"

definition without_trailing_dot :: "string \<Rightarrow> string" where
  "without_trailing_dot s = (if s \<noteq> [] \<and> last s = CHR ''.'' then butlast s else s)"

definition fully_qualified :: "string \<Rightarrow> string" where
  "fully_qualified s = (if s \<noteq> [] \<and> last s = CHR ''.'' then s else s @ ''.'')"

definition obfuscate_spec :: "(string \<Rightarrow> string) \<Rightarrow> string \<Rightarrow> string \<Rightarrow> string" where
  "obfuscate_spec Sum256 secret name =
     (if 2 \<le> length (labels name)
      then ''ymmv.'' @ hex_Encode (take 8 (Sum256 (secret @ ToLower (without_trailing_dot name))))
             @ ''.'' @ ToLower (last (labels name)) @ ''.''
      else ToLower (fully_qualified name))"

text \<open>
  A name is plain when it is made of ASCII characters and has no escape, so that
  every dot in it ends a label.
\<close>

definition plain :: "string \<Rightarrow> bool" where
  "plain name = list_all (\<lambda>c. of_char c < (128::nat) \<and> c \<noteq> CHR 0x5C) name"

text \<open>
  A name has no empty label when it is the root name, or does not start with a dot and
  has no two dots in a row.
\<close>

fun adjacent_dots :: "string \<Rightarrow> bool" where
  "adjacent_dots (a # b # cs) = ((a = CHR ''.'' \<and> b = CHR ''.'') \<or> adjacent_dots (b # cs))"
| "adjacent_dots _ = False"

definition no_empty_label :: "string \<Rightarrow> bool" where
  "no_empty_label name =
     (name = ''.'' \<or> (\<not> adjacent_dots name \<and> (name = [] \<or> hd name \<noteq> CHR ''.'')))"

text \<open>
  A stand-in for the hash function, used where a property is evaluated on an example:
  its value is 32 bytes long, as \<open>Sum256\<close>'s is. It is not SHA-256.
\<close>

definition example_Sum256 :: "string \<Rightarrow> string" where
  "example_Sum256 x = take 32 (x @ replicate 32 (CHR ''z''))"

section \<open>DNS messages\<close>

text \<open>
  The types of the codec library (\<open>github.com/miekg/dns\<close>) that the program reads and
  writes. Unsigned fields are natural numbers (no arithmetic is done on them), the
  \<open>int\<close> fields \<open>Opcode\<close> and \<open>Rcode\<close> are integers.

  \<open>dns.RR\<close> is an interface. The program calls \<open>Header()\<close> and \<open>String()\<close> on it,
  asserts it to \<open>*dns.SOA\<close> and compares records with \<open>reflect.DeepEqual\<close>, which
  is equality of the values below. A record is an SOA record with its fields, or a
  record of another concrete type, whose fields are kept as one value.
\<close>

datatype panic = IndexOutOfRange | NilDereference | TypeAssertion

record Question =
  Name :: string
  Qtype :: nat
  Qclass :: nat

record RR_Header =
  Name :: string
  Rrtype :: nat
  Class :: nat
  Ttl :: nat
  Rdlength :: nat

record SOA =
  Hdr :: RR_Header
  Ns :: string
  Mbox :: string
  Serial :: nat
  Refresh :: nat
  Retry :: nat
  Expire :: nat
  Minttl :: nat

datatype RR = SOA_RR SOA | Other_RR RR_Header string

fun Header :: "RR \<Rightarrow> RR_Header" where
  "Header (SOA_RR soa) = Hdr soa"
| "Header (Other_RR h rdata) = h"

text \<open>The assignment \<open>rr.Header().Name = name\<close>.\<close>

fun set_Name :: "RR \<Rightarrow> string \<Rightarrow> RR" where
  "set_Name (SOA_RR soa) name = SOA_RR (soa\<lparr>Hdr := (Hdr soa)\<lparr>RR_Header.Name := name\<rparr>\<rparr>)"
| "set_Name (Other_RR h rdata) name = Other_RR (h\<lparr>RR_Header.Name := name\<rparr>) rdata"

text \<open>The type assertion \<open>rr.(*dns.SOA)\<close>, which panics on another concrete type.\<close>

fun as_SOA :: "RR \<Rightarrow> panic + SOA" where
  "as_SOA (SOA_RR soa) = Inr soa"
| "as_SOA (Other_RR h rdata) = Inl TypeAssertion"

record Msg =
  Id :: nat
  Response :: bool
  Opcode :: int
  Authoritative :: bool
  Truncated :: bool
  RecursionDesired :: bool
  RecursionAvailable :: bool
  Zero :: bool
  AuthenticatedData :: bool
  CheckingDisabled :: bool
  Rcode :: int
  Compress :: bool
  Question :: "Question list"
  Answer :: "RR list"
  Ns :: "RR list"
  Extra :: "RR list"

text \<open>\<open>new(dns.Msg)\<close>: the zero value.\<close>

definition new_Msg :: Msg where
  "new_Msg = \<lparr>Id = 0, Response = False, Opcode = 0, Authoritative = False, Truncated = False,
     RecursionDesired = False, RecursionAvailable = False, Zero = False,
     AuthenticatedData = False, CheckingDisabled = False, Rcode = 0, Compress = False,
     Question = [], Answer = [], Ns = [], Extra = []\<rparr>"

definition TypeNS :: nat where "TypeNS = 2"
definition TypeCNAME :: nat where "TypeCNAME = 5"
definition TypeSOA :: nat where "TypeSOA = 6"
definition TypePTR :: nat where "TypePTR = 12"
definition TypeMX :: nat where "TypeMX = 15"
definition TypeSRV :: nat where "TypeSRV = 33"
definition TypeNAPTR :: nat where "TypeNAPTR = 35"
definition TypeDNAME :: nat where "TypeDNAME = 39"
definition TypeOPT :: nat where "TypeOPT = 41"
definition TypeRRSIG :: nat where "TypeRRSIG = 46"
definition RcodeSuccess :: int where "RcodeSuccess = 0"

lemmas dns_consts = TypeNS_def TypeCNAME_def TypeSOA_def TypePTR_def TypeMX_def TypeSRV_def
  TypeNAPTR_def TypeDNAME_def TypeOPT_def TypeRRSIG_def RcodeSuccess_def

text \<open>
  What the program takes from outside its own source: the text of a record
  (\<open>String()\<close>), the name tables of the codec, \<open>sort.Sort\<close> of the standard library
  (given the comparator, it returns the slice after sorting) and the order in which
  \<open>range\<close> visits the entries of a map, which Go leaves unspecified.
\<close>

record env =
  rr_String :: "RR \<Rightarrow> string"
  OpcodeToString :: "int \<Rightarrow> string"
  RcodeToString :: "int \<Rightarrow> string"
  TypeToString :: "nat \<Rightarrow> string"
  sort_Sort :: "(RR \<Rightarrow> RR \<Rightarrow> bool) \<Rightarrow> RR list \<Rightarrow> RR list"
  map_range :: "(string \<times> RR list) list \<Rightarrow> (string \<times> RR list) list"

text \<open>
  \<open>sort.Sort\<close> returns a permutation of its input, and on a comparator that is a
  strict weak order the result is in order: no element is less than an earlier one.
  \<open>range\<close> visits every entry of the map once.
\<close>

definition sort_permutes :: "env \<Rightarrow> bool" where
  "sort_permutes E = (\<forall>lt xs. mset (sort_Sort E lt xs) = mset xs)"

definition range_visits_all :: "env \<Rightarrow> bool" where
  "range_visits_all E = (\<forall>m. mset (map_range E m) = mset m)"

section \<open>The ordering of resource records\<close>

text \<open>
  \<open>rr_sort.Less\<close>, on the two elements \<open>a[i]\<close> and \<open>a[j]\<close>. As in the source, both
  names are taken from \<open>a[i]\<close>.
\<close>

definition Less :: "env \<Rightarrow> RR \<Rightarrow> RR \<Rightarrow> bool" where
  "Less E a_i a_j =
     (let i_name = ToLower (RR_Header.Name (Header a_i));
          j_name = ToLower (RR_Header.Name (Header a_i))
      in if i_name < j_name then True
         else if i_name > j_name then False
         else if Rrtype (Header a_i) < Rrtype (Header a_j) then True
         else if Rrtype (Header a_i) > Rrtype (Header a_j) then False
         else if Ttl (Header a_i) < Ttl (Header a_j) then True
         else if Ttl (Header a_i) > Ttl (Header a_j) then False
         else
           let case_insensitive =
                 (Rrtype (Header a_i) \<in> {TypeNS, TypeCNAME, TypeSOA, TypePTR, TypeMX,
                                          TypeSRV, TypeNAPTR, TypeDNAME});
               i_str = (if case_insensitive then ToLower (rr_String E a_i) else rr_String E a_i);
               j_str = (if case_insensitive then ToLower (rr_String E a_j) else rr_String E a_j)
           in if i_str < j_str then True else False)"

text \<open>
  The ordering as the specification describes it: the owner name of the left record
  against the owner name of the right record, then type, TTL and text.
\<close>

definition Less_spec :: "env \<Rightarrow> RR \<Rightarrow> RR \<Rightarrow> bool" where
  "Less_spec E a b =
     (let a_name = ToLower (RR_Header.Name (Header a));
          b_name = ToLower (RR_Header.Name (Header b));
          ci = (Rrtype (Header a) \<in> {TypeNS, TypeCNAME, TypeSOA, TypePTR, TypeMX,
                                      TypeSRV, TypeNAPTR, TypeDNAME});
          a_str = (if ci then ToLower (rr_String E a) else rr_String E a);
          b_str = (if ci then ToLower (rr_String E b) else rr_String E b)
      in (a_name, Rrtype (Header a), Ttl (Header a), a_str)
           < (b_name, Rrtype (Header b), Ttl (Header b), b_str))"

section \<open>Comparison of responses\<close>

subsection \<open>RRsets of the additional section\<close>

text \<open>
  \<open>extract_rrset\<close>. The Go map is a list of entries with distinct keys; an entry is
  replaced in place or added at the end. The loop lowercases the owner name of each
  record (in the message itself), then every RRset is sorted.
\<close>

fun extract_rrset_loop :: "RR list \<Rightarrow> (string \<times> RR list) list \<Rightarrow> (string \<times> RR list) list" where
  "extract_rrset_loop [] rrsets = rrsets"
| "extract_rrset_loop (rr # rrs) rrsets =
     (let rr' = set_Name rr (ToLower (RR_Header.Name (Header rr)));
          key = fmt_06d (Rrtype (Header rr')) @ ''_'' @ RR_Header.Name (Header rr');
          rrset = (case map_of rrsets key of None \<Rightarrow> [] | Some rrset \<Rightarrow> rrset)
      in extract_rrset_loop rrs (AList.update key (rrset @ [rr']) rrsets))"

definition extract_rrset :: "env \<Rightarrow> RR list \<Rightarrow> (string \<times> RR list) list" where
  "extract_rrset E rrs =
     map (\<lambda>(key, rrset). (key, sort_Sort E (Less E) rrset)) (extract_rrset_loop rrs [])"

text \<open>
  \<open>compare_additional\<close>: the loop over the entries of the IANA map, in the order in
  which \<open>range\<close> yields them. \<open>iana_rrset[0]\<close> panics on an empty RRset.
\<close>

fun compare_additional_loop ::
  "(string \<times> RR list) list \<Rightarrow> (string \<times> RR list) list \<Rightarrow> RR list \<times> RR list
     \<Rightarrow> panic + (RR list \<times> RR list)" where
  "compare_additional_loop [] yeti_rr_map acc = Inr acc"
| "compare_additional_loop ((key, iana_rrset) # rest) yeti_rr_map (iana_only, yeti_only) =
     (case iana_rrset of
        [] \<Rightarrow> Inl IndexOutOfRange
      | rr0 # _ \<Rightarrow>
          if Rrtype (Header rr0) = TypeOPT
          then compare_additional_loop rest yeti_rr_map (iana_only, yeti_only)
          else if Rrtype (Header rr0) = TypeRRSIG
          then compare_additional_loop rest yeti_rr_map (iana_only, yeti_only)
          else (case map_of yeti_rr_map key of
                  None \<Rightarrow> compare_additional_loop rest yeti_rr_map (iana_only, yeti_only)
                | Some yeti_rrset \<Rightarrow>
                    if iana_rrset \<noteq> yeti_rrset
                    then compare_additional_loop rest yeti_rr_map
                           (iana_only @ iana_rrset, yeti_only @ yeti_rrset)
                    else compare_additional_loop rest yeti_rr_map (iana_only, yeti_only)))"

definition compare_additional :: "env \<Rightarrow> RR list \<Rightarrow> RR list \<Rightarrow> panic + (RR list \<times> RR list)" where
  "compare_additional E iana yeti =
     (let iana_rr_map = extract_rrset E iana;
          yeti_rr_map = extract_rrset E yeti
      in compare_additional_loop (map_range E iana_rr_map) yeti_rr_map ([], []))"

subsection \<open>Answer and authority sections\<close>

text \<open>
  \<open>compare_section\<close>. The first loop collects the Yeti records to match and the Yeti
  root SOA; the second loop walks the IANA records, and its inner loop removes the
  first Yeti record whose lowercased text equals that of the IANA record.
\<close>

fun yeti_loop :: "RR list \<Rightarrow> RR list \<times> SOA option \<Rightarrow> panic + (RR list \<times> SOA option)" where
  "yeti_loop [] st = Inr st"
| "yeti_loop (yeti_rr # rest) (yeti_only, yeti_root_soa) =
     (if Rrtype (Header yeti_rr) = TypeSOA \<and> RR_Header.Name (Header yeti_rr) = ''.''
      then (case as_SOA yeti_rr of
              Inl p \<Rightarrow> Inl p
            | Inr soa \<Rightarrow> yeti_loop rest (yeti_only, Some soa))
      else if Rrtype (Header yeti_rr) \<noteq> TypeRRSIG
      then yeti_loop rest (yeti_only @ [yeti_rr], yeti_root_soa)
      else yeti_loop rest (yeti_only, yeti_root_soa))"

fun remove_match :: "env \<Rightarrow> RR \<Rightarrow> RR list \<Rightarrow> RR list option" where
  "remove_match E iana_rr [] = None"
| "remove_match E iana_rr (yeti_rr # rest) =
     (if ToLower (rr_String E iana_rr) = ToLower (rr_String E yeti_rr) then Some rest
      else map_option ((#) yeti_rr) (remove_match E iana_rr rest))"

fun iana_loop ::
  "env \<Rightarrow> RR list \<Rightarrow> RR list \<times> RR list \<times> SOA option
     \<Rightarrow> panic + (RR list \<times> RR list \<times> SOA option)" where
  "iana_loop E [] st = Inr st"
| "iana_loop E (iana_rr # rest) (iana_only, yeti_only, iana_root_soa) =
     (if Rrtype (Header iana_rr) = TypeRRSIG
      then iana_loop E rest (iana_only, yeti_only, iana_root_soa)
      else if Rrtype (Header iana_rr) = TypeSOA \<and> RR_Header.Name (Header iana_rr) = ''.''
      then (case as_SOA iana_rr of
              Inl p \<Rightarrow> Inl p
            | Inr soa \<Rightarrow> iana_loop E rest (iana_only, yeti_only, Some soa))
      else (case remove_match E iana_rr yeti_only of
              Some yeti_only' \<Rightarrow> iana_loop E rest (iana_only, yeti_only', iana_root_soa)
            | None \<Rightarrow> iana_loop E rest (iana_only @ [iana_rr], yeti_only, iana_root_soa)))"

definition compare_section ::
  "env \<Rightarrow> RR list \<Rightarrow> RR list \<Rightarrow> panic + (RR list \<times> RR list \<times> SOA option \<times> SOA option)" where
  "compare_section E iana yeti =
     (case yeti_loop yeti ([], None) of
        Inl p \<Rightarrow> Inl p
      | Inr (yeti_only, yeti_root_soa) \<Rightarrow>
          (case iana_loop E iana ([], yeti_only, None) of
             Inl p \<Rightarrow> Inl p
           | Inr (iana_only, yeti_only', iana_root_soa) \<Rightarrow>
               Inr (iana_only, yeti_only', iana_root_soa, yeti_root_soa)))"

subsection \<open>The skip policy and the root SOA\<close>

text \<open>\<open>skip_comparison\<close>; \<open>query.Question[0]\<close> panics when there is no question.\<close>

definition skip_comparison :: "Msg \<Rightarrow> panic + bool" where
  "skip_comparison query =
     (case Question query of
        [] \<Rightarrow> Inl IndexOutOfRange
      | q # _ \<Rightarrow>
          let name = ToLower (Question.Name q) in
          if name = ''.'' then Inr True
          else if name = ''id.server.'' then Inr True
          else if name = ''hostname.bind.'' then Inr True
          else if HasSuffix name ''.root-servers.net.'' then Inr True
          else if HasSuffix name ''.arpa.'' then Inr True
          else Inr False)"

definition compare_soa :: "env \<Rightarrow> SOA option \<Rightarrow> SOA option \<Rightarrow> string" where
  "compare_soa E iana_soa yeti_soa =
     (case iana_soa of
        None \<Rightarrow>
          (case yeti_soa of
             None \<Rightarrow> []
           | Some y \<Rightarrow> ''SOA only for Yeti: '' @ rr_String E (SOA_RR y) @ ''\<newline>'')
      | Some i \<Rightarrow>
          (case yeti_soa of
             None \<Rightarrow> ''SOA only for IANA: '' @ rr_String E (SOA_RR i) @ ''\<newline>''
           | Some y \<Rightarrow>
               (if Serial i \<noteq> Serial y
                then ''IANA SOA serial: '' @ digits (Serial i) @ '', Yeti SOA serial: ''
                       @ digits (Serial y) @ ''\<newline>''
                else [])
               @ (if Refresh i \<noteq> Refresh y
                  then ''IANA SOA refresh: '' @ digits (Refresh i) @ '', Yeti SOA refresh: ''
                         @ digits (Refresh y) @ ''\<newline>''
                  else [])
               @ (if Retry i \<noteq> Retry y
                  then ''IANA SOA retry: '' @ digits (Retry i) @ '', Yeti SOA retry: ''
                         @ digits (Retry y) @ ''\<newline>''
                  else [])
               @ (if Expire i \<noteq> Expire y
                  then ''IANA SOA expiry: '' @ digits (Expire i) @ '', Yeti SOA expiry: ''
                         @ digits (Expire y) @ ''\<newline>''
                  else [])
               @ (if Minttl i \<noteq> Minttl y
                  then ''IANA SOA negative TTL: '' @ digits (Minttl i)
                         @ '', Yeti SOA negative TTL: '' @ digits (Minttl y) @ ''\<newline>''
                  else [])))"

subsection \<open>The report\<close>

text \<open>
  The verbs of \<open>fmt\<close> as the source uses them: \<open>%t\<close> on a boolean, \<open>%s\<close> on a boolean
  and \<open>%t\<close> on a string (the last two print the bad-verb form).
\<close>

definition fmt_t :: "bool \<Rightarrow> string" where
  "fmt_t b = (if b then ''true'' else ''false'')"

definition fmt_s_bool :: "bool \<Rightarrow> string" where
  "fmt_s_bool b = ''%!s(bool='' @ fmt_t b @ '')''"

definition fmt_t_string :: "string \<Rightarrow> string" where
  "fmt_t_string s = ''%!t(string='' @ s @ '')''"

text \<open>The differences of the header fields, in the order of the source.\<close>

definition header_diffs :: "env \<Rightarrow> Msg \<Rightarrow> Msg \<Rightarrow> string" where
  "header_diffs E iana yeti =
     (if Response iana \<noteq> Response yeti
      then ''Response flag mismatch: IANA '' @ fmt_s_bool (Response iana) @ '' vs Yeti ''
             @ fmt_s_bool (Response yeti) @ ''\<newline>''
      else [])
     @ (if Opcode iana \<noteq> Opcode yeti
        then ''Opcode mismatch: IANA '' @ OpcodeToString E (Opcode iana) @ '' vs Yeti ''
               @ OpcodeToString E (Opcode yeti) @ ''\<newline>''
        else [])
     @ (if Authoritative iana \<noteq> Authoritative yeti
        then ''Authoritative flag mismatch: IANA '' @ fmt_t (Authoritative iana) @ '' vs Yeti ''
               @ fmt_t (Authoritative yeti) @ ''\<newline>''
        else [])
     @ (if RecursionDesired iana \<noteq> RecursionDesired yeti
        then ''Recursion desired flag mismatch: IANA '' @ fmt_t (RecursionDesired iana)
               @ '' vs Yeti '' @ fmt_t (RecursionDesired yeti) @ ''\<newline>''
        else [])
     @ (if RecursionAvailable iana \<noteq> RecursionAvailable yeti
        then ''Recursion available flag mismatch: IANA ''
               @ fmt_t_string (fmt_t (RecursionAvailable iana)) @ '' vs Yeti ''
               @ fmt_t_string (fmt_t (RecursionAvailable yeti)) @ ''\<newline>''
        else [])
     @ (if AuthenticatedData iana \<noteq> AuthenticatedData yeti
        then ''Authenticated data flag mismatch: IANA '' @ fmt_t (AuthenticatedData iana)
               @ '' vs Yeti '' @ fmt_t (AuthenticatedData yeti) @ ''\<newline>''
        else [])
     @ (if Rcode iana \<noteq> Rcode yeti
        then ''Rcode mismatch: IANA '' @ RcodeToString E (Rcode iana) @ '' vs Yeti ''
               @ RcodeToString E (Rcode yeti) @ ''\<newline>''
        else [])"

text \<open>
  The lines of one section: a title and the records of each side that has any. The
  source has this block three times, with the titles of the three sections.
\<close>

definition section_diffs :: "env \<Rightarrow> string \<Rightarrow> string \<Rightarrow> RR list \<Rightarrow> RR list \<Rightarrow> string" where
  "section_diffs E iana_title yeti_title iana_only yeti_only =
     (if length iana_only > 0 \<or> length yeti_only > 0
      then (if length iana_only > 0
            then iana_title @ concat (map (\<lambda>rr. rr_String E rr @ ''\<newline>'') iana_only)
            else [])
           @ (if length yeti_only > 0
              then yeti_title @ concat (map (\<lambda>rr. rr_String E rr @ ''\<newline>'') yeti_only)
              else [])
      else [])"

text \<open>
  \<open>compare_resp\<close>. The three sections of both messages are sorted in place before
  they are compared. The variable \<open>equivalent\<close> of the source is not read, and is
  left out.
\<close>

definition compare_resp :: "env \<Rightarrow> Msg \<Rightarrow> Msg \<Rightarrow> panic + string" where
  "compare_resp E iana yeti =
     (case skip_comparison iana of
        Inl p \<Rightarrow> Inl p
      | Inr True \<Rightarrow> Inr ''Skipping query\<newline>''
      | Inr False \<Rightarrow>
          (case compare_section E (sort_Sort E (Less E) (Answer iana))
                                  (sort_Sort E (Less E) (Answer yeti)) of
             Inl p \<Rightarrow> Inl p
           | Inr (an_iana_only, an_yeti_only, an_iana_soa, an_yeti_soa) \<Rightarrow>
               (case compare_section E (sort_Sort E (Less E) (Ns iana))
                                       (sort_Sort E (Less E) (Ns yeti)) of
                  Inl p \<Rightarrow> Inl p
                | Inr (ns_iana_only, ns_yeti_only, ns_iana_soa, ns_yeti_soa) \<Rightarrow>
                    (case compare_additional E (sort_Sort E (Less E) (Extra iana))
                                               (sort_Sort E (Less E) (Extra yeti)) of
                       Inl p \<Rightarrow> Inl p
                     | Inr (ex_iana_only, ex_yeti_only) \<Rightarrow>
                         Inr (header_diffs E iana yeti
                              @ section_diffs E ''Answer section, IANA only\<newline>''
                                  ''Answer section, Yeti only\<newline>'' an_iana_only an_yeti_only
                              @ compare_soa E an_iana_soa an_yeti_soa
                              @ section_diffs E ''Authority section, IANA only\<newline>''
                                  ''Authority section, Yeti only\<newline>'' ns_iana_only ns_yeti_only
                              @ compare_soa E ns_iana_soa ns_yeti_soa
                              @ section_diffs E ''Additional section, IANA mismatch\<newline>''
                                  ''Additional section, Yeti mismatch\<newline>''
                                  ex_iana_only ex_yeti_only)))))"

section \<open>The stub resolver\<close>

text \<open>
  \<open>DnsQuery\<close> of dnsstub.go. \<open>Exchange\<close> stands for \<open>dns.Client.Exchange\<close> on the
  transport set in the client (\<open>UDP\<close> for a new client, \<open>TCP\<close> after \<open>Net = "tcp"\<close>); it
  returns the response (or nil), the round-trip time and the error (or nil).
  \<open>rand\<close> is what \<open>RandUint16\<close> returns. The model returns the exchanges that were
  made, in order, the query as the call leaves it, and the returned triple; reading a
  field of a nil response is a panic.
\<close>

datatype error = ErrTruncated | Error string

datatype transport = UDP | TCP

definition DnsQuery ::
  "(transport \<Rightarrow> Msg \<Rightarrow> string \<Rightarrow> Msg option \<times> int \<times> error option) \<Rightarrow> error + nat \<Rightarrow> string \<Rightarrow> Msg
     \<Rightarrow> (transport \<times> Msg) list \<times> Msg \<times> (panic + Msg option \<times> int \<times> error option)" where
  "DnsQuery Exchange rand server query =
     (case rand of
        Inl err \<Rightarrow> ([], query, Inr (None, 0, Some err))
      | Inr id' \<Rightarrow>
          let query = query\<lparr>Id := id'\<rparr>;
              (r, rtt, err) = Exchange UDP query server
          in if err \<noteq> None \<and> err \<noteq> Some ErrTruncated
             then ([(UDP, query)], query, Inr (None, 0, err))
             else (case r of
                     None \<Rightarrow> ([(UDP, query)], query, Inl NilDereference)
                   | Some r' \<Rightarrow>
                       if Rcode r' = RcodeSuccess \<and> \<not> Truncated r'
                       then ([(UDP, query)], query, Inr (Some r', rtt, None))
                       else
                         let (r, rtt, err) = Exchange TCP query server
                         in if err \<noteq> None
                            then ([(UDP, query), (TCP, query)], query, Inr (None, 0, err))
                            else ([(UDP, query), (TCP, query)], query, Inr (r, rtt, None))))"

section \<open>The frame reader\<close>

text \<open>
  Standard input is the list of the bytes that are still to be read. \<open>os.Stdin.Read\<close>
  into a buffer of \<open>n\<close> bytes returns no byte and no error when \<open>n = 0\<close>, \<open>io.EOF\<close> at
  the end of the input, and otherwise the bytes that are left, up to \<open>n\<close> of them.
  \<open>binary.Read\<close> of an \<open>n\<close>-byte big-endian unsigned integer reads all \<open>n\<close> bytes
  (\<open>io.ReadFull\<close>): \<open>io.EOF\<close> when there is none, \<open>io.ErrUnexpectedEOF\<close> when there
  are fewer.
\<close>

datatype read_error = EOF | ErrUnexpectedEOF | errors_New string

type_synonym 'a reader = "string \<Rightarrow> (read_error + 'a) \<times> string"

definition Read :: "nat \<Rightarrow> string \<Rightarrow> (string \<times> read_error option) \<times> string" where
  "Read n s = (if n = 0 then (([], None), s)
               else if s = [] then (([], Some EOF), s)
               else ((take n s, None), drop n s))"

definition BigEndian :: "string \<Rightarrow> nat" where
  "BigEndian bs = foldl (\<lambda>acc b. acc * 256 + of_char b) 0 bs"

definition binary_Read :: "nat \<Rightarrow> nat reader" where
  "binary_Read n s = (if s = [] then (Inl EOF, s)
                      else if length s < n then (Inl ErrUnexpectedEOF, [])
                      else (Inr (BigEndian (take n s)), drop n s))"

text \<open>
  The pattern of the source around each \<open>os.Stdin.Read\<close>: return the error of the
  read, then fail with a message when fewer than \<open>n\<close> bytes were read.
\<close>

definition read_bytes :: "nat \<Rightarrow> (nat \<Rightarrow> string) \<Rightarrow> string reader" where
  "read_bytes n errmsg s =
     (case Read n s of
        ((buf, Some err), s') \<Rightarrow> (Inl err, s')
      | ((buf, None), s') \<Rightarrow>
          if length buf \<noteq> n then (Inl (errors_New (errmsg (length buf))), s')
          else (Inr buf, s'))"

definition bind :: "'a reader \<Rightarrow> ('a \<Rightarrow> 'b reader) \<Rightarrow> 'b reader" where
  "bind m f s = (case m s of (Inl err, s') \<Rightarrow> (Inl err, s') | (Inr x, s') \<Rightarrow> f x s')"

definition fail :: "read_error \<Rightarrow> 'a reader" where
  "fail err s = (Inl err, s)"

definition return :: "'a \<Rightarrow> 'a reader" where
  "return x s = (Inr x, s)"

record ymmv_message =
  ip_family :: nat
  ip_protocol :: char
  addr :: string
  query_time :: "nat \<times> nat"
  query :: Msg
  answer_time :: "nat \<times> nat"
  answer :: Msg

text \<open>
  \<open>read_next_message\<close>. \<open>Unpack\<close> stands for \<open>Msg.Unpack\<close> on a new message: it gives
  the message as the call leaves it and the error, which the source does not look at.
\<close>

definition read_next_message :: "(string \<Rightarrow> Msg \<times> error option) \<Rightarrow> ymmv_message reader" where
  "read_next_message Unpack =
     bind (read_bytes 4 (\<lambda>nread. ''Only read '' @ digits nread @ '' of 4 magic bytes'')) (\<lambda>magic.
     if magic \<noteq> ''ymmv''
     then fail (errors_New (''Magic '' @ [CHR 0x27] @ magic @ [CHR 0x27] @ '' instead of ''
                            @ [CHR 0x27] @ ''ymmv'' @ [CHR 0x27]))
     else
     bind (read_bytes 1 (\<lambda>nread. ''Couldn'' @ [CHR 0x27] @ ''t read IPv4 or IPv6'')) (\<lambda>tmp_ip_family.
     if tmp_ip_family ! 0 \<noteq> CHR ''4'' \<and> tmp_ip_family ! 0 \<noteq> CHR ''6''
     then fail (errors_New (''Expecting '' @ [CHR 0x27] @ ''4'' @ [CHR 0x27] @ '' or ''
                            @ [CHR 0x27] @ ''6'' @ [CHR 0x27] @ '' for IP family, got ''
                            @ [CHR 0x27] @ tmp_ip_family @ [CHR 0x27]))
     else
     let ip_family = (if tmp_ip_family ! 0 = CHR ''4'' then 4 else 6 :: nat) in
     bind (read_bytes 1 (\<lambda>nread. ''Couldn'' @ [CHR 0x27] @ ''t read TCP or UDP'')) (\<lambda>protocol.
     if protocol ! 0 \<noteq> CHR ''u'' \<and> protocol ! 0 \<noteq> CHR ''t''
     then fail (errors_New (''Expecting '' @ [CHR 0x27] @ ''t'' @ [CHR 0x27] @ ''cp or ''
                            @ [CHR 0x27] @ ''u'' @ [CHR 0x27] @ ''dp for protocol, got ''
                            @ [CHR 0x27] @ protocol @ [CHR 0x27]))
     else
     let cap_addr = (if ip_family = 4 then 4 else 16 :: nat) in
     bind (read_bytes cap_addr (\<lambda>nread. ''Only read '' @ digits nread @ '' of ''
                                  @ digits cap_addr @ '' bytes of address'')) (\<lambda>tmp_addr.
     bind (binary_Read 4) (\<lambda>query_sec.
     bind (binary_Read 4) (\<lambda>query_nsec.
     bind (binary_Read 2) (\<lambda>query_len.
     bind (read_bytes query_len (\<lambda>nread. ''Only read '' @ digits nread @ '' of ''
                                   @ digits query_len @ '' bytes of query message'')) (\<lambda>query_raw.
     bind (binary_Read 4) (\<lambda>answer_sec.
     bind (binary_Read 4) (\<lambda>answer_nsec.
     bind (binary_Read 2) (\<lambda>answer_len.
     bind (read_bytes answer_len (\<lambda>nread. ''Only read '' @ digits nread @ '' of ''
                                    @ digits answer_len @ '' bytes of answer message'')) (\<lambda>answer_raw.
     return \<lparr>ip_family = ip_family, ip_protocol = protocol ! 0, addr = tmp_addr,
             query_time = (query_sec, query_nsec), query = fst (Unpack query_raw),
             answer_time = (answer_sec, answer_nsec),
             answer = fst (Unpack answer_raw)\<rparr>))))))))))))"

text \<open>
  \<open>message_reader\<close>: the values sent on the channel, in order (\<open>None\<close> is the nil
  that signals the end of the input), and how the goroutine ends: it returns after
  sending nil, or \<open>log.Fatal\<close> ends the process with the error.
\<close>

datatype reader_end = Reader_returns | Fatal read_error

function message_reader ::
  "(string \<Rightarrow> Msg \<times> error option) \<Rightarrow> string \<Rightarrow> ymmv_message option list \<times> reader_end" where
  "message_reader Unpack s =
     (case read_next_message Unpack s of
        (Inl err, s') \<Rightarrow> if err \<noteq> EOF then ([], Fatal err) else ([None], Reader_returns)
      | (Inr y, s') \<Rightarrow>
          (case message_reader Unpack s' of (sent, e) \<Rightarrow> (Some y # sent, e)))"
  by pat_completeness auto
termination
proof (relation "measure (\<lambda>(Unpack, s). length s)")
  show "wf (measure (\<lambda>(Unpack, s). length s))" by simp
next
  fix Unpack :: "string \<Rightarrow> Msg \<times> error option" and s x s' y
  assume run: "(x, s') = read_next_message Unpack s" and ok: "x = Inr y"
  have bindE: "\<exists>v t. m u = (Inr v, t) \<and> f v t = (Inr w, u')"
    if "bind m f u = (Inr w, u')"
    for m :: "'a reader" and f :: "'a \<Rightarrow> 'b reader" and u u' w
    using that by (auto simp: bind_def split: prod.splits sum.splits)
  have rb: "length t \<le> length u" if "read_bytes n msg u = (r, t)" for n msg u r t
    using that by (auto simp: read_bytes_def Read_def split: if_splits)
  have br: "length t \<le> length u" if "binary_Read n u = (r, t)" for n u r t
    using that by (auto simp: binary_Read_def split: if_splits)
  have rb4: "length t < length u" if "read_bytes 4 msg u = (Inr v, t)" for msg u v t
    using that by (auto simp: read_bytes_def Read_def split: if_splits)
  have tail: "length t \<le> length u"
    if "bind m (\<lambda>v. k v) u = (Inr w, t)"
      and "\<And>u r t. m u = (r, t) \<Longrightarrow> length t \<le> length u"
      and "\<And>v u t. k v u = (Inr w, t) \<Longrightarrow> length t \<le> length u"
    for m :: "'a reader" and k :: "'a \<Rightarrow> 'b reader" and u t w
  proof -
    from bindE [OF that(1)] obtain v t1 where "m u = (Inr v, t1)" "k v t1 = (Inr w, t)"
      by blast
    with that(2,3) show ?thesis by (meson le_trans)
  qed
  have strict: "length t < length u"
    if "bind m (\<lambda>v. k v) u = (Inr w, t)"
      and "\<And>v t. m u = (Inr v, t) \<Longrightarrow> length t < length u"
      and "\<And>v u t. k v u = (Inr w, t) \<Longrightarrow> length t \<le> length u"
    for m :: "'a reader" and k :: "'a \<Rightarrow> 'b reader" and u t w
  proof -
    from bindE [OF that(1)] obtain v t1 where "m u = (Inr v, t1)" "k v t1 = (Inr w, t)"
      by blast
    with that(2,3) show ?thesis by (meson less_le_trans le_less_trans)
  qed
  from run ok have "read_next_message Unpack s = (Inr y, s')" by simp
  then have "length s' < length s"
    unfolding read_next_message_def
    apply (rule strict)
     apply (erule rb4)
    apply (simp add: fail_def split: if_splits)
    apply ((erule tail, (erule rb | erule br),
            (simp add: fail_def return_def Let_def split: if_splits)?)+)
    done
  then show "((Unpack, s'), (Unpack, s)) \<in> measure (\<lambda>(Unpack, s). length s)" by simp
qed

section \<open>The orchestrator\<close>

subsection \<open>Replaying one record\<close>

text \<open>
  \<open>yeti_query\<close>. What the goroutine takes from outside: the network and the random
  query identifiers (\<open>RandUint16_at n\<close> is what \<open>RandUint16\<close> returns in the round of
  the loop with index \<open>n\<close>), the hash and the random secret of the obfuscator, the EDNS
  methods of the codec (\<open>IsEdns0\<close> tells whether the message has an OPT record,
  \<open>SetEdns0\<close> and \<open>SetUDPSize\<close> give the message after the call), the log prefix and
  the text of an error.

  The server generator is not part of the given source: \<open>targets\<close> is the list that
  \<open>gen.next()\<close> returns, and \<open>update_srtt\<close>, which writes to the state of the
  generator only, is left out.
\<close>

record world =
  Exchange :: "transport \<Rightarrow> Msg \<Rightarrow> string \<Rightarrow> Msg option \<times> int \<times> error option"
  RandUint16_at :: "nat \<Rightarrow> error + nat"
  Sum256 :: "string \<Rightarrow> string"
  rand_Read :: string
  IsEdns0 :: "Msg \<Rightarrow> bool"
  SetEdns0 :: "Msg \<Rightarrow> nat \<Rightarrow> bool \<Rightarrow> Msg"
  SetUDPSize :: "Msg \<Rightarrow> nat \<Rightarrow> Msg"
  log_Prefix :: string
  err_Error :: "error \<Rightarrow> string"

record target =
  ip :: string
  ns_name :: string

definition SetOrChangeUDPSize :: "world \<Rightarrow> Msg \<Rightarrow> nat \<Rightarrow> Msg" where
  "SetOrChangeUDPSize W msg udpsize =
     (if \<not> IsEdns0 W msg then SetEdns0 W msg udpsize False else SetUDPSize W msg udpsize)"

text \<open>
  \<open>compare_resp\<close> sorts the sections of its arguments in place and \<open>extract_rrset\<close>
  lowercases the owner names of the additional section; the next round of the loop
  compares the IANA response as the last round left it.
\<close>

definition after_compare :: "env \<Rightarrow> Msg \<Rightarrow> Msg" where
  "after_compare E m =
     m\<lparr>Answer := sort_Sort E (Less E) (Answer m),
       Ns := sort_Sort E (Less E) (Ns m),
       Extra := map (\<lambda>rr. set_Name rr (ToLower (RR_Header.Name (Header rr))))
                  (sort_Sort E (Less E) (Extra m))\<rparr>"

text \<open>
  The loop over the targets. The state is the number of the round, the secret of the
  obfuscator, the query and the IANA response as they are now, and the text so far.
  The result is the text sent on the output channel, or the panic that ends the
  process.
\<close>

fun yeti_query_loop ::
  "world \<Rightarrow> env \<Rightarrow> bool \<Rightarrow> nat \<Rightarrow> target list \<Rightarrow> nat \<times> string option \<times> Msg \<times> Msg \<times> string
     \<Rightarrow> panic + string" where
  "yeti_query_loop W E clear_names edns_size [] (n, secret, iana_query, iana_resp, result) =
     Inr result"
| "yeti_query_loop W E clear_names edns_size (target # rest)
     (n, secret, iana_query, iana_resp, result) =
     (case Question iana_query of
        [] \<Rightarrow> Inl IndexOutOfRange
      | q # qs \<Rightarrow>
          let (qname, secret) =
                (if clear_names then (Question.Name q, secret)
                 else obfuscate_query (Sum256 W) (rand_Read W) secret (Question.Name q));
              server = ''['' @ ip target @ '']:53'';
              result = result @ log_Prefix W @ ''Sending query '' @ [CHR 0x27] @ Question.Name q
                         @ [CHR 0x27] @ '' '' @ TypeToString E (Qtype q) @ '' as '' @ [CHR 0x27]
                         @ qname @ [CHR 0x27] @ '' to '' @ ns_name target @ '' @ '' @ server
                         @ ''\<newline>'';
              iana_query = iana_query\<lparr>Question := q\<lparr>Question.Name := qname\<rparr> # qs\<rparr>;
              iana_query = (if edns_size \<noteq> 0 then SetOrChangeUDPSize W iana_query edns_size
                            else iana_query)
          in (case DnsQuery (Exchange W) (RandUint16_at W n) server iana_query of
                (sent, iana_query, Inl p) \<Rightarrow> Inl p
              | (sent, iana_query, Inr (yeti_resp, rtt, Some err)) \<Rightarrow>
                  yeti_query_loop W E clear_names edns_size rest
                    (Suc n, secret, iana_query, iana_resp,
                     result @ ''Error querying Yeti root server; '' @ err_Error W err @ ''\<newline>'')
              | (sent, iana_query, Inr (yeti_resp, rtt, None)) \<Rightarrow>
                  (case skip_comparison iana_resp of
                     Inl p \<Rightarrow> Inl p
                   | Inr True \<Rightarrow>
                       yeti_query_loop W E clear_names edns_size rest
                         (Suc n, secret, iana_query, iana_resp, result @ ''Skipping query\<newline>'')
                   | Inr False \<Rightarrow>
                       (case yeti_resp of
                          None \<Rightarrow> Inl NilDereference
                        | Some yeti \<Rightarrow>
                            (case compare_resp E iana_resp yeti of
                               Inl p \<Rightarrow> Inl p
                             | Inr text \<Rightarrow>
                                 yeti_query_loop W E clear_names edns_size rest
                                   (Suc n, secret, iana_query, after_compare E iana_resp,
                                    result @ text))))))"

definition yeti_query ::
  "world \<Rightarrow> env \<Rightarrow> target list \<Rightarrow> string option \<Rightarrow> bool \<Rightarrow> nat \<Rightarrow> Msg \<Rightarrow> Msg \<Rightarrow> panic + string" where
  "yeti_query W E targets secret clear_names edns_size iana_query iana_resp =
     yeti_query_loop W E clear_names edns_size targets (0, secret, iana_query, iana_resp, [])"

subsection \<open>The main loop\<close>

text \<open>
  The loops of \<open>main\<close> after start-up, as a machine that takes one step for each value
  it receives: a message from the reader (\<open>None\<close> is nil) or a finished report. The
  \<open>select\<close> statement stands inside a \<open>for\<close> statement without a condition. In Go,
  \<open>break\<close> ends the innermost \<open>for\<close>, \<open>switch\<close> or \<open>select\<close> statement: the \<open>break\<close>
  on a nil message ends the \<open>select\<close>, and the \<open>for\<close> statement goes on. The loop
  that prints the outstanding reports stands after the \<open>for\<close> statement.
\<close>

datatype place = Main_loop | Drain_loop | Returned

datatype event = Message "ymmv_message option" | Output string

record main_state =
  place :: place
  query_count :: int
  printed :: "string list"
  started :: "ymmv_message list"

definition main_start :: main_state where
  "main_start = \<lparr>place = Main_loop, query_count = 0, printed = [], started = []\<rparr>"

text \<open>The statement after the \<open>for\<close> statement: the test of the drain loop.\<close>

definition enter_drain :: "main_state \<Rightarrow> main_state" where
  "enter_drain st = (if query_count st > 0 then st\<lparr>place := Drain_loop\<rparr>
                     else st\<lparr>place := Returned\<rparr>)"

fun main_step :: "main_state \<Rightarrow> event \<Rightarrow> main_state" where
  "main_step st ev =
     (case place st of
        Main_loop \<Rightarrow>
          (case ev of
             Message None \<Rightarrow> st
           | Message (Some y) \<Rightarrow>
               st\<lparr>started := started st @ [y], query_count := query_count st + 1\<rparr>
           | Output str \<Rightarrow>
               st\<lparr>printed := printed st @ [str], query_count := query_count st - 1\<rparr>)
      | Drain_loop \<Rightarrow>
          (case ev of
             Message y \<Rightarrow> st
           | Output str \<Rightarrow>
               enter_drain (st\<lparr>printed := printed st @ [str],
                               query_count := query_count st - 1\<rparr>))
      | Returned \<Rightarrow> st)"

definition main_run :: "event list \<Rightarrow> main_state" where
  "main_run evs = foldl main_step main_start evs"

section \<open>An environment for examples\<close>

text \<open>
  An instance of what the program takes from outside, used where a property is
  evaluated on an example: a text for records made of owner name, TTL, type and data,
  an insertion sort, and a \<open>range\<close> that visits the entries in the order of insertion.
\<close>

fun example_rdata :: "RR \<Rightarrow> string" where
  "example_rdata (SOA_RR soa) =
     SOA.Ns soa @ '' '' @ Mbox soa @ '' '' @ digits (Serial soa) @ '' '' @ digits (Refresh soa)
       @ '' '' @ digits (Retry soa) @ '' '' @ digits (Expire soa) @ '' '' @ digits (Minttl soa)"
| "example_rdata (Other_RR h rdata) = rdata"

definition example_String :: "RR \<Rightarrow> string" where
  "example_String rr =
     RR_Header.Name (Header rr) @ '' '' @ digits (Ttl (Header rr)) @ '' TYPE''
       @ digits (Rrtype (Header rr)) @ '' '' @ example_rdata rr"

fun example_insert :: "(RR \<Rightarrow> RR \<Rightarrow> bool) \<Rightarrow> RR \<Rightarrow> RR list \<Rightarrow> RR list" where
  "example_insert lt x [] = [x]"
| "example_insert lt x (y # ys) =
     (if lt x y then x # y # ys else y # example_insert lt x ys)"

definition example_sort :: "(RR \<Rightarrow> RR \<Rightarrow> bool) \<Rightarrow> RR list \<Rightarrow> RR list" where
  "example_sort lt xs = foldr (example_insert lt) xs []"

definition example_env :: env where
  "example_env =
     \<lparr>rr_String = example_String,
      OpcodeToString = (\<lambda>n. ''OPCODE'' @ digits (nat n)),
      RcodeToString = (\<lambda>n. ''RCODE'' @ digits (nat n)),
      TypeToString = (\<lambda>n. ''TYPE'' @ digits n),
      sort_Sort = example_sort,
      map_range = (\<lambda>m. m)\<rparr>"

definition example_header :: "string \<Rightarrow> nat \<Rightarrow> nat \<Rightarrow> RR_Header" where
  "example_header name rrtype ttl =
     \<lparr>RR_Header.Name = name, Rrtype = rrtype, Class = 1, Ttl = ttl, Rdlength = 4\<rparr>"

definition example_question :: "string \<Rightarrow> Msg" where
  "example_question name =
     new_Msg\<lparr>Question := [\<lparr>Question.Name = name, Qtype = 1, Qclass = 1\<rparr>]\<rparr>"


section \<open>Notions of the specification\<close>

text \<open>The skip policy in the words of the specification, on the lowercased name.\<close>

definition skip_policy :: "string \<Rightarrow> bool" where
  "skip_policy name =
     (name = ''.'' \<or> name = ''id.server.'' \<or> name = ''hostname.bind.''
      \<or> suffix ''.root-servers.net.'' name \<or> suffix ''.arpa.'' name)"

text \<open>
  A text does not start as the line \<open>Skipping query\<close> does: it is empty, or its first
  character is not \<open>S\<close>, or its second character is \<open>O\<close>.
\<close>

definition starts_no_skip :: "string \<Rightarrow> bool" where
  "starts_no_skip s =
     (case s of
        [] \<Rightarrow> True
      | c # t \<Rightarrow> c \<noteq> CHR ''S'' \<or> (case t of [] \<Rightarrow> False | d # u \<Rightarrow> d = CHR ''O''))"

text \<open>
  What a UDP exchange returned: a truncated response (the TC bit, or the truncation
  error of the codec); and the condition under which the source goes on to TCP: no
  error other than the truncation error, and a response that is truncated or has a
  response code other than \<open>NOERROR\<close>.
\<close>

definition udp_truncated :: "Msg option \<times> int \<times> error option \<Rightarrow> bool" where
  "udp_truncated x =
     (case x of (r, rtt, err) \<Rightarrow>
        err = Some ErrTruncated \<or> (case r of None \<Rightarrow> False | Some r' \<Rightarrow> Truncated r'))"

definition udp_unsuccessful :: "Msg option \<times> int \<times> error option \<Rightarrow> bool" where
  "udp_unsuccessful x =
     (case x of (r, rtt, err) \<Rightarrow>
        (err = None \<or> err = Some ErrTruncated)
        \<and> (case r of None \<Rightarrow> False
            | Some r' \<Rightarrow> Rcode r' \<noteq> RcodeSuccess \<or> Truncated r'))"

text \<open>A server that answers every query with \<open>NXDOMAIN\<close>, not truncated.\<close>

definition nxdomain_Exchange ::
  "transport \<Rightarrow> Msg \<Rightarrow> string \<Rightarrow> Msg option \<times> int \<times> error option" where
  "nxdomain_Exchange net q server = (Some (q\<lparr>Response := True, Rcode := 3\<rparr>), 10, None)"

text \<open>
  The layout of one record of the input stream, as the specification gives it: the
  magic, the family and transport bytes, the address, and for the query and the
  answer two 4-byte times, a 2-byte length and the bytes, all integers big-endian.
\<close>

fun BigEndian_bytes :: "nat \<Rightarrow> nat \<Rightarrow> string" where
  "BigEndian_bytes 0 v = []"
| "BigEndian_bytes (Suc n) v = BigEndian_bytes n (v div 256) @ [char_of v]"

definition frame ::
  "char \<Rightarrow> char \<Rightarrow> string \<Rightarrow> nat \<times> nat \<Rightarrow> string \<Rightarrow> nat \<times> nat \<Rightarrow> string \<Rightarrow> string" where
  "frame family transport address query_at query_bytes answer_at answer_bytes =
     ''ymmv'' @ [family] @ [transport] @ address
       @ BigEndian_bytes 4 (fst query_at) @ BigEndian_bytes 4 (snd query_at)
       @ BigEndian_bytes 2 (length query_bytes) @ query_bytes
       @ BigEndian_bytes 4 (fst answer_at) @ BigEndian_bytes 4 (snd answer_at)
       @ BigEndian_bytes 2 (length answer_bytes) @ answer_bytes"

definition frame_ok ::
  "char \<Rightarrow> char \<Rightarrow> string \<Rightarrow> nat \<times> nat \<Rightarrow> string \<Rightarrow> nat \<times> nat \<Rightarrow> string \<Rightarrow> bool" where
  "frame_ok family transport address query_at query_bytes answer_at answer_bytes =
     ((family = CHR ''4'' \<and> length address = 4 \<or> family = CHR ''6'' \<and> length address = 16)
      \<and> (transport = CHR ''u'' \<or> transport = CHR ''t'')
      \<and> fst query_at < 2 ^ 32 \<and> snd query_at < 2 ^ 32 \<and> length query_bytes < 2 ^ 16
      \<and> fst answer_at < 2 ^ 32 \<and> snd answer_at < 2 ^ 32 \<and> length answer_bytes < 2 ^ 16)"

text \<open>The record that the reader makes of such a frame.\<close>

definition captured ::
  "(string \<Rightarrow> Msg \<times> error option) \<Rightarrow> char \<Rightarrow> char \<Rightarrow> string \<Rightarrow> nat \<times> nat \<Rightarrow> string
     \<Rightarrow> nat \<times> nat \<Rightarrow> string \<Rightarrow> ymmv_message" where
  "captured Unpack family transport address query_at query_bytes answer_at answer_bytes =
     \<lparr>ip_family = (if family = CHR ''4'' then 4 else 6), ip_protocol = transport,
      addr = address, query_time = query_at, query = fst (Unpack query_bytes),
      answer_time = answer_at, answer = fst (Unpack answer_bytes)\<rparr>"

text \<open>Further examples: a codec that parses nothing, a world, one target, two records.\<close>

definition failing_Unpack :: "string \<Rightarrow> Msg \<times> error option" where
  "failing_Unpack raw = (new_Msg, Some (Error ''dns: overflow unpacking uint16''))"

definition example_world :: world where
  "example_world =
     \<lparr>Exchange = nxdomain_Exchange,
      RandUint16_at = (\<lambda>n. Inr (4660 + n)),
      Sum256 = example_Sum256,
      rand_Read = ''RRRRRRRR'',
      IsEdns0 = (\<lambda>m. Extra m \<noteq> []),
      SetEdns0 = (\<lambda>m size do. m),
      SetUDPSize = (\<lambda>m size. m),
      log_Prefix = [],
      err_Error = (\<lambda>e. case e of ErrTruncated \<Rightarrow> ''truncated'' | Error s \<Rightarrow> s)\<rparr>"

definition example_target :: target where
  "example_target = \<lparr>ip = ''2001:db8::53'', ns_name = ''ns.example.''\<rparr>"

definition rr_b :: RR where
  "rr_b = Other_RR (example_header ''b.'' 1 1) ''192.0.2.1''"

definition rr_a :: RR where
  "rr_a = Other_RR (example_header ''a.'' 1 2) ''192.0.2.1''"

text \<open>A response with an answer, a root SOA, a signature and an OPT record.\<close>

definition example_soa :: SOA where
  "example_soa =
     \<lparr>Hdr = example_header ''.'' 6 86400, SOA.Ns = ''a.root-servers.net.'',
      Mbox = ''nstld.verisign-grs.com.'', Serial = 2024010101, Refresh = 1800, Retry = 900,
      Expire = 604800, Minttl = 86400\<rparr>"

definition example_response :: Msg where
  "example_response =
     (example_question ''Example.COM.'')
       \<lparr>Response := True,
        Answer := [Other_RR (example_header ''example.com.'' 1 300) ''192.0.2.1''],
        Ns := [SOA_RR example_soa, Other_RR (example_header ''.'' 46 86400) ''SOA 8 0 86400''],
        Extra := [Other_RR (example_header ''.'' 41 0) ''4096'',
                  Other_RR (example_header ''NS.example.com.'' 1 300) ''192.0.2.53'']\<rparr>"

text \<open>Two answer sections and two additional sections that differ.\<close>

definition iana_section :: "RR list" where
  "iana_section =
     [Other_RR (example_header ''a.example.'' 1 300) ''192.0.2.1'',
      Other_RR (example_header ''b.example.'' 1 300) ''192.0.2.2'',
      Other_RR (example_header ''a.example.'' 46 300) ''A 8 2 300'',
      SOA_RR example_soa]"

definition yeti_section :: "RR list" where
  "yeti_section =
     [Other_RR (example_header ''A.Example.'' 1 300) ''192.0.2.1'',
      Other_RR (example_header ''c.example.'' 1 300) ''192.0.2.3'',
      SOA_RR (example_soa\<lparr>Serial := 2024010102\<rparr>)]"

definition iana_extra :: "RR list" where
  "iana_extra =
     [Other_RR (example_header ''NS.example.'' 1 300) ''192.0.2.53'',
      Other_RR (example_header ''ns.example.'' 28 300) ''2001:db8::53'',
      Other_RR (example_header ''.'' 41 0) ''4096'']"

definition yeti_extra :: "RR list" where
  "yeti_extra =
     [Other_RR (example_header ''ns.example.'' 1 300) ''192.0.2.54'',
      Other_RR (example_header ''ns.example.'' 28 300) ''2001:db8::53'',
      Other_RR (example_header ''.'' 41 0) ''1232'',
      Other_RR (example_header ''ns.example.'' 46 300) ''A 8 2 300'']"

text \<open>Two responses made of these sections.\<close>

definition example_iana :: Msg where
  "example_iana =
     (example_question ''example.com.'')
       \<lparr>Response := True, Answer := iana_section, Extra := iana_extra\<rparr>"

definition example_yeti :: Msg where
  "example_yeti =
     (example_question ''example.com.'')
       \<lparr>Response := True, Answer := yeti_section, Extra := yeti_extra\<rparr>"

section \<open>Notions used to state the properties of the comparison\<close>

text \<open>
  The codec gives every record the concrete type of its header type: a record whose
  header says SOA is an SOA record.
\<close>

definition well_typed :: "RR \<Rightarrow> bool" where
  "well_typed rr = (case rr of SOA_RR soa \<Rightarrow> True | Other_RR h rdata \<Rightarrow> Rrtype h \<noteq> TypeSOA)"

definition well_typed_msg :: "Msg \<Rightarrow> bool" where
  "well_typed_msg m = (list_all well_typed (Answer m) \<and> list_all well_typed (Ns m))"

text \<open>
  What \<open>compare_section\<close> does with a section: the records whose header says root
  SOA are taken out (the last one is the root SOA of the section), signatures are
  dropped, and the other records go into the matching.
\<close>

definition root_soa_typed :: "RR \<Rightarrow> bool" where
  "root_soa_typed rr = (Rrtype (Header rr) = TypeSOA \<and> RR_Header.Name (Header rr) = ''.'')"

definition general :: "RR list \<Rightarrow> RR list" where
  "general rrs = filter (\<lambda>rr. \<not> root_soa_typed rr \<and> Rrtype (Header rr) \<noteq> TypeRRSIG) rrs"

fun root_soa :: "RR list \<Rightarrow> SOA option \<Rightarrow> SOA option" where
  "root_soa [] s = s"
| "root_soa (rr # rrs) s =
     (if root_soa_typed rr
      then (case rr of SOA_RR soa \<Rightarrow> root_soa rrs (Some soa) | Other_RR h rdata \<Rightarrow> root_soa rrs s)
      else root_soa rrs s)"

text \<open>
  The matching of two lists of records by the lowercased text: the records of the
  first list that find no partner, and the records of the second list that are left.
\<close>

definition match_key :: "env \<Rightarrow> RR \<Rightarrow> string" where
  "match_key E rr = ToLower (rr_String E rr)"

fun residual :: "env \<Rightarrow> RR list \<Rightarrow> RR list \<Rightarrow> RR list" where
  "residual E [] ys = []"
| "residual E (x # xs) ys =
     (case remove_match E x ys of
        Some ys' \<Rightarrow> residual E xs ys'
      | None \<Rightarrow> x # residual E xs ys)"

fun remaining :: "env \<Rightarrow> RR list \<Rightarrow> RR list \<Rightarrow> RR list" where
  "remaining E [] ys = ys"
| "remaining E (x # xs) ys =
     (case remove_match E x ys of
        Some ys' \<Rightarrow> remaining E xs ys'
      | None \<Rightarrow> remaining E xs ys)"

text \<open>
  The records of a list that are left when, for every key of the multiset, the first
  record with that key is taken away.
\<close>

fun drop_matched :: "env \<Rightarrow> string multiset \<Rightarrow> RR list \<Rightarrow> RR list" where
  "drop_matched E M [] = []"
| "drop_matched E M (x # xs) =
     (if match_key E x \<in># M then drop_matched E (M - {#match_key E x#}) xs
      else x # drop_matched E M xs)"

text \<open>
  The type assertions of \<open>compare_section\<close> succeed on a list when every record
  whose header says root SOA is an SOA record.
\<close>

definition assertion_holds :: "RR \<Rightarrow> bool" where
  "assertion_holds rr =
     (case rr of SOA_RR soa \<Rightarrow> True | Other_RR h rdata \<Rightarrow> \<not> root_soa_typed rr)"

text \<open>
  The additional section: the record with its owner name lowercased, the key of its
  RRset, the type that a key starts with, and the test that \<open>compare_additional\<close>
  makes on an entry of the IANA map: not an OPT or RRSIG RRset, present in the Yeti
  map, and not equal to the Yeti RRset.
\<close>

definition lower_name :: "RR \<Rightarrow> RR" where
  "lower_name rr = set_Name rr (ToLower (RR_Header.Name (Header rr)))"

definition rrset_key :: "RR \<Rightarrow> string" where
  "rrset_key rr = fmt_06d (Rrtype (Header rr)) @ ''_'' @ RR_Header.Name (Header rr)"

definition parse_nat :: "string \<Rightarrow> nat" where
  "parse_nat s = foldl (\<lambda>a c. 10 * a + (of_char c - 48)) 0 s"

definition key_type :: "string \<Rightarrow> nat" where
  "key_type k = parse_nat (takeWhile (\<lambda>c. c \<noteq> CHR ''_'') k)"

definition differs :: "(string \<times> RR list) list \<Rightarrow> string \<times> RR list \<Rightarrow> bool" where
  "differs yeti_rr_map e =
     (case e of (key, rrset) \<Rightarrow>
        key_type key \<noteq> TypeOPT \<and> key_type key \<noteq> TypeRRSIG
        \<and> (case map_of yeti_rr_map key of
              None \<Rightarrow> False
            | Some yeti_rrset \<Rightarrow> rrset \<noteq> yeti_rrset))"

text \<open>
  The maps that \<open>extract_rrset\<close> builds: the keys are distinct, no RRset is empty,
  and every record of an RRset has the key of its entry.
\<close>

definition keyed :: "(string \<times> RR list) list \<Rightarrow> bool" where
  "keyed m =
     (distinct (map fst m)
      \<and> list_all (\<lambda>(k, rrset). rrset \<noteq> [] \<and> list_all (\<lambda>rr. rrset_key rr = k) rrset) m)"

text \<open>
  More of what is known of \<open>sort.Sort\<close> and \<open>range\<close>. On the comparator of the
  source, which is a strict weak order, the sorted slice is in order: no record is
  less than an earlier one. The sort is not stable, so its result is determined by
  its input as a multiset only when no two different records tie. Go leaves the order
  of \<open>range\<close> open; two runs are compared under the same order, which is to say that
  the order of the entries that are in both maps is the same.
\<close>

definition sort_in_order :: "env \<Rightarrow> bool" where
  "sort_in_order E =
     (\<forall>xs. sorted_wrt (\<lambda>a b. \<not> Less E b a) (sort_Sort E (Less E) xs))"

definition tie_free :: "env \<Rightarrow> RR list \<Rightarrow> bool" where
  "tie_free E xs = list_all (\<lambda>a. list_all (\<lambda>b. Less E a b \<or> Less E b a \<or> a = b) xs) xs"

definition range_stable :: "env \<Rightarrow> bool" where
  "range_stable E = (\<forall>P m. map_range E (filter P m) = filter P (map_range E m))"

text \<open>
  A message without the records that the comparison is said to ignore: signatures in
  the three sections, and OPT records in the additional section.
\<close>

definition not_RRSIG :: "RR \<Rightarrow> bool" where
  "not_RRSIG rr = (Rrtype (Header rr) \<noteq> TypeRRSIG)"

definition not_RRSIG_OPT :: "RR \<Rightarrow> bool" where
  "not_RRSIG_OPT rr = (Rrtype (Header rr) \<noteq> TypeRRSIG \<and> Rrtype (Header rr) \<noteq> TypeOPT)"

definition strip_ignored :: "Msg \<Rightarrow> Msg" where
  "strip_ignored m =
     m\<lparr>Answer := filter not_RRSIG (Answer m), Ns := filter not_RRSIG (Ns m),
       Extra := filter not_RRSIG_OPT (Extra m)\<rparr>"

definition ties_absent :: "env \<Rightarrow> Msg \<Rightarrow> bool" where
  "ties_absent E m =
     (tie_free E (filter not_RRSIG (Answer m)) \<and> tie_free E (filter not_RRSIG (Ns m))
      \<and> tie_free E (filter not_RRSIG_OPT (Extra m)))"

text \<open>
  A message with other MNAME and RNAME fields in the root SOA records of its answer
  and authority sections; and the condition that each of these sections has at most
  one record whose header says root SOA, in both messages or in neither.
\<close>

definition rename_soa :: "string \<Rightarrow> string \<Rightarrow> RR \<Rightarrow> RR" where
  "rename_soa mname rname rr =
     (case rr of
        SOA_RR soa \<Rightarrow>
          if root_soa_typed rr then SOA_RR (soa\<lparr>SOA.Ns := mname, Mbox := rname\<rparr>) else rr
      | Other_RR h rdata \<Rightarrow> rr)"

definition rename_msg :: "string \<Rightarrow> string \<Rightarrow> Msg \<Rightarrow> Msg" where
  "rename_msg mname rname m =
     m\<lparr>Answer := map (rename_soa mname rname) (Answer m),
       Ns := map (rename_soa mname rname) (Ns m)\<rparr>"

definition one_root_soa :: "RR list \<Rightarrow> RR list \<Rightarrow> bool" where
  "one_root_soa iana yeti =
     (length (filter root_soa_typed iana) \<le> 1 \<and> length (filter root_soa_typed yeti) \<le> 1
      \<and> (filter root_soa_typed iana = [] \<longleftrightarrow> filter root_soa_typed yeti = []))"

text \<open>The five fields of the root SOA that \<open>compare_soa\<close> compares.\<close>

definition soa_numbers :: "SOA \<Rightarrow> nat \<times> nat \<times> nat \<times> nat \<times> nat" where
  "soa_numbers soa = (Serial soa, Refresh soa, Retry soa, Expire soa, Minttl soa)"

text \<open>The keys of the RRsets that are neither OPT nor RRSIG.\<close>

definition kept_key :: "string \<times> RR list \<Rightarrow> bool" where
  "kept_key e = (key_type (fst e) \<noteq> TypeRRSIG \<and> key_type (fst e) \<noteq> TypeOPT)"

text \<open>
  The part of the report that one section gives: the lines of the unmatched records
  and the lines of the root SOA for an answer or authority section, the lines of the
  mismatching RRsets for the additional section.
\<close>

definition section_text :: "env \<Rightarrow> string \<Rightarrow> string \<Rightarrow> RR list \<Rightarrow> RR list \<Rightarrow> panic + string" where
  "section_text E iana_title yeti_title iana yeti =
     (case compare_section E iana yeti of
        Inl p \<Rightarrow> Inl p
      | Inr (iana_only, yeti_only, iana_soa, yeti_soa) \<Rightarrow>
          Inr (section_diffs E iana_title yeti_title iana_only yeti_only
               @ compare_soa E iana_soa yeti_soa))"

definition additional_text :: "env \<Rightarrow> RR list \<Rightarrow> RR list \<Rightarrow> panic + string" where
  "additional_text E iana yeti =
     (case compare_additional E iana yeti of
        Inl p \<Rightarrow> Inl p
      | Inr (iana_only, yeti_only) \<Rightarrow>
          Inr (section_diffs E ''Additional section, IANA mismatch\<newline>''
                 ''Additional section, Yeti mismatch\<newline>'' iana_only yeti_only))"

definition rename_fields :: "string \<Rightarrow> string \<Rightarrow> SOA \<Rightarrow> SOA" where
  "rename_fields mname rname soa = soa\<lparr>SOA.Ns := mname, Mbox := rname\<rparr>"

section \<open>Properties of the obfuscator\<close>

lemma take_hex_Encode: "take (2 * n) (hex_Encode bs) = hex_Encode (take n bs)"
proof (induction bs arbitrary: n)
  case Nil
  then show ?case by (simp add: hex_Encode_def)
next
  case (Cons b bs)
  show ?case
  proof (cases n)
    case 0
    then show ?thesis by (simp add: hex_Encode_def)
  next
    case (Suc m)
    then show ?thesis using Cons [of m] by (simp add: hex_Encode_def)
  qed
qed

lemma Join_Cons: "fs \<noteq> [] \<Longrightarrow> Join (a # fs) sep = a @ sep @ Join fs sep"
  by (cases fs) auto

lemma FieldsFunc_loop_nonempty:
  "cur \<noteq> [] \<or> (cs \<noteq> [] \<and> \<not> f (hd cs)) \<Longrightarrow> FieldsFunc_loop f cur cs \<noteq> []"
  by (induction cs arbitrary: cur) auto

lemma without_trailing_dot_dotfree:
  "CHR ''.'' \<notin> set cur \<Longrightarrow> without_trailing_dot cur = cur"
  by (cases cur rule: rev_cases) (auto simp: without_trailing_dot_def)

lemma without_trailing_dot_append:
  "cs \<noteq> [] \<Longrightarrow> without_trailing_dot (xs @ cs) = xs @ without_trailing_dot cs"
  by (auto simp: without_trailing_dot_def butlast_append)

lemma Join_FieldsFunc_loop:
  "\<not> adjacent_dots cs \<Longrightarrow> (cur = [] \<longrightarrow> cs = [] \<or> hd cs \<noteq> CHR ''.'')
   \<Longrightarrow> CHR ''.'' \<notin> set cur
   \<Longrightarrow> Join (FieldsFunc_loop (\<lambda>r. r = CHR ''.'') cur cs) ''.'' = without_trailing_dot (cur @ cs)"
proof (induction cs arbitrary: cur)
  case Nil
  then show ?case by (simp add: without_trailing_dot_dotfree)
next
  case (Cons c cs)
  have nd: "\<not> adjacent_dots cs" using Cons.prems(1) by (cases cs) auto
  show ?case
  proof (cases "c = CHR ''.''")
    case False
    have "Join (FieldsFunc_loop (\<lambda>r. r = CHR ''.'') (cur @ [c]) cs) ''.''
          = without_trailing_dot ((cur @ [c]) @ cs)"
      using Cons.IH [of "cur @ [c]"] nd Cons.prems(3) False by simp
    then show ?thesis using False by simp
  next
    case True
    then have cur: "cur \<noteq> []" using Cons.prems(2) by auto
    have hd: "cs = [] \<or> hd cs \<noteq> CHR ''.''" using Cons.prems(1) True by (cases cs) auto
    have ih: "Join (FieldsFunc_loop (\<lambda>r. r = CHR ''.'') [] cs) ''.'' = without_trailing_dot cs"
      using Cons.IH [of "[]"] nd hd by simp
    show ?thesis
    proof (cases "cs = []")
      case True
      then show ?thesis using \<open>c = CHR ''.''\<close> cur Cons.prems(3)
        by (simp add: without_trailing_dot_def)
    next
      case False
      then have ne: "FieldsFunc_loop (\<lambda>r. r = CHR ''.'') [] cs \<noteq> []"
        using hd by (intro FieldsFunc_loop_nonempty) auto
      have "without_trailing_dot (cur @ c # cs) = (cur @ [c]) @ without_trailing_dot cs"
        using without_trailing_dot_append [OF False, of "cur @ [c]"] by simp
      then show ?thesis using \<open>c = CHR ''.''\<close> cur ne ih by (simp add: Join_Cons)
    qed
  qed
qed

lemma labels_plain:
  "CHR 0x5C \<notin> set cs \<Longrightarrow> dns_labels_loop cur cs = FieldsFunc_loop (\<lambda>r. r = CHR ''.'') cur cs"
  by (induction cur cs rule: dns_labels_loop.induct) auto

lemma Join_labels:
  assumes "plain name" "no_empty_label name"
  shows "labels name = FieldsFunc name (\<lambda>r. r = CHR ''.'')"
    and "Join (labels name) ''.'' = without_trailing_dot name"
proof -
  have "CHR 0x5C \<notin> set name" using assms(1) by (auto simp: plain_def list_all_iff)
  then show l: "labels name = FieldsFunc name (\<lambda>r. r = CHR ''.'')"
    by (simp add: labels_def FieldsFunc_def labels_plain)
  show "Join (labels name) ''.'' = without_trailing_dot name"
  proof (cases "name = ''.''")
    case True
    then show ?thesis by (simp add: labels_def without_trailing_dot_def)
  next
    case False
    then show ?thesis using assms(2) Join_FieldsFunc_loop [of name "[]"] l
      by (auto simp: no_empty_label_def FieldsFunc_def)
  qed
qed

lemma drop_to_last: "xs \<noteq> [] \<Longrightarrow> drop (length xs - 1) xs = [last xs]"
  by (cases xs rule: rev_cases) auto

lemma fully_qualified_eq: "fully_qualified name = without_trailing_dot name @ ''.''"
  by (cases name rule: rev_cases) (auto simp: fully_qualified_def without_trailing_dot_def)

lemma ToLower_append: "ToLower (a @ b) = ToLower a @ ToLower b"
  by (simp add: ToLower_def)

lemma ToLower_dot: "ToLower ''.'' = ''.''"
  by (simp add: ToLower_def ToLower_char_def)

text \<open>
  On a plain name without an empty label (the root name, or a name that does not
  start with a dot and has no two dots in a row) \<open>obfuscate_query\<close> returns what the
  contract says, for the secret that is set or the random one made at first use.
\<close>

lemma obfuscate_query_plain_names:
  assumes "plain name" "no_empty_label name"
  shows "fst (obfuscate_query H rnd st name)
         = obfuscate_spec H (case st of None \<Rightarrow> rnd | Some secret \<Rightarrow> secret) name"
proof -
  note l = Join_labels(1) [OF assms]
  have j: "Join (FieldsFunc name (\<lambda>r. r = CHR ''.'')) ''.'' = without_trailing_dot name"
    using Join_labels(2) [OF assms] l by simp
  show ?thesis
  proof (cases "length (labels name) < 2")
    case True
    then show ?thesis using j l
      by (simp add: obfuscate_query_def obfuscate_spec_def fully_qualified_eq
          ToLower_append ToLower_dot)
  next
    case False
    then have "labels name \<noteq> []" by auto
    then have "drop (length (labels name) - 1) (labels name) = [last (labels name)]"
      by (rule drop_to_last)
    then show ?thesis using False j l take_hex_Encode [of 8]
      by (simp add: obfuscate_query_def obfuscate_spec_def Let_def)
  qed
qed

text \<open>
  C1 fails on the source, which splits a name at every dot, escaped or not. The name
  of the top-level domain whose one label is a dot is written backslash, dot, dot. It
  has one label, and the contract gives the name itself, which is lowercase and fully
  qualified. \<open>obfuscate_query\<close> takes the backslash for the one label and returns
  backslash, dot. In the same way the name written \<open>a\<close>, backslash, dot, \<open>b\<close>, dot has
  one label and comes back unchanged by the contract, and \<open>obfuscate_query\<close> takes
  it for two labels and obfuscates it.
\<close>

theorem obfuscate_query_splits_escaped_dot:
  "labels [CHR 0x5C, CHR ''.'', CHR ''.''] = [[CHR 0x5C, CHR ''.'']]
   \<and> obfuscate_spec example_Sum256 ''01234567'' [CHR 0x5C, CHR ''.'', CHR ''.'']
       = [CHR 0x5C, CHR ''.'', CHR ''.'']
   \<and> fst (obfuscate_query example_Sum256 ''RRRRRRRR'' (Some ''01234567'')
            [CHR 0x5C, CHR ''.'', CHR ''.'']) = [CHR 0x5C, CHR ''.'']
   \<and> labels [CHR ''a'', CHR 0x5C, CHR ''.'', CHR ''b'', CHR ''.'']
       = [[CHR ''a'', CHR 0x5C, CHR ''.'', CHR ''b'']]
   \<and> obfuscate_spec example_Sum256 ''01234567'' [CHR ''a'', CHR 0x5C, CHR ''.'', CHR ''b'', CHR ''.'']
       = [CHR ''a'', CHR 0x5C, CHR ''.'', CHR ''b'', CHR ''.'']
   \<and> fst (obfuscate_query example_Sum256 ''RRRRRRRR'' (Some ''01234567'')
            [CHR ''a'', CHR 0x5C, CHR ''.'', CHR ''b'', CHR ''.''])
       = ''ymmv.3031323334353637.b.''"
  by code_simp

section \<open>Properties of the ordering\<close>

text \<open>
  The comparator of the source never looks at an owner name: it orders by type, TTL
  and text alone.
\<close>

lemma Less_key:
  "Less E a b \<longleftrightarrow>
     (Rrtype (Header a), Ttl (Header a),
      if Rrtype (Header a) \<in> {TypeNS, TypeCNAME, TypeSOA, TypePTR, TypeMX, TypeSRV,
                              TypeNAPTR, TypeDNAME}
      then ToLower (rr_String E a) else rr_String E a)
     < (Rrtype (Header b), Ttl (Header b),
        if Rrtype (Header b) \<in> {TypeNS, TypeCNAME, TypeSOA, TypePTR, TypeMX, TypeSRV,
                                TypeNAPTR, TypeDNAME}
        then ToLower (rr_String E b) else rr_String E b)"
  unfolding Less_def Let_def less_prod_def by auto

text \<open>
  C2 fails on the source, by a slip of index. Two address records, the left one
  owned by \<open>b.\<close> with TTL 1, the right one by \<open>a.\<close> with TTL 2: by owner name the
  left one is not less, as the ordering of the specification says, and \<open>Less\<close>, which
  compares the owner name of the left record with itself, says that it is.
\<close>

theorem Less_compares_left_name_with_itself:
  "Less example_env rr_b rr_a \<and> \<not> Less_spec example_env rr_b rr_a"
  by (simp add: Less_def Less_spec_def rr_a_def rr_b_def example_header_def ToLower_def
      ToLower_char_def Let_def)

section \<open>Properties of the skip policy\<close>

lemma starts_no_skip_append:
  "starts_no_skip a \<Longrightarrow> starts_no_skip b \<Longrightarrow> starts_no_skip (a @ b)"
  by (cases a) (auto simp: starts_no_skip_def split: list.splits)

lemma starts_no_skip_if:
  "starts_no_skip s \<Longrightarrow> starts_no_skip (if c then s else [])"
  by (simp add: starts_no_skip_def)

lemma starts_no_skip_if_append:
  "starts_no_skip s \<Longrightarrow> starts_no_skip r \<Longrightarrow> starts_no_skip ((if c then s else []) @ r)"
  by (simp add: starts_no_skip_append)

lemma starts_no_skip_header: "starts_no_skip (header_diffs E iana yeti)"
  unfolding header_diffs_def
  by (intro starts_no_skip_if_append starts_no_skip_if; simp add: starts_no_skip_def)

lemma starts_no_skip_soa: "starts_no_skip (compare_soa E iana_soa yeti_soa)"
proof (cases iana_soa)
  case None
  then show ?thesis by (cases yeti_soa) (simp_all add: compare_soa_def starts_no_skip_def)
next
  case (Some i)
  show ?thesis
  proof (cases yeti_soa)
    case None
    then show ?thesis using Some by (simp add: compare_soa_def starts_no_skip_def)
  next
    case (Some y)
    show ?thesis unfolding compare_soa_def \<open>iana_soa = Some i\<close> Some option.case
      by (intro starts_no_skip_if_append starts_no_skip_if; simp add: starts_no_skip_def)
  qed
qed

lemma compare_resp_not_skip_line:
  assumes "skip_comparison iana = Inr False"
  shows "compare_resp E iana yeti \<noteq> Inr ''Skipping query\<newline>''"
proof
  assume r: "compare_resp E iana yeti = Inr ''Skipping query\<newline>''"
  have a: "starts_no_skip (section_diffs E ''Answer section, IANA only\<newline>''
             ''Answer section, Yeti only\<newline>'' io yo)" for io yo
    by (auto simp: section_diffs_def starts_no_skip_def)
  have n: "starts_no_skip (section_diffs E ''Authority section, IANA only\<newline>''
             ''Authority section, Yeti only\<newline>'' io yo)" for io yo
    by (auto simp: section_diffs_def starts_no_skip_def)
  have x: "starts_no_skip (section_diffs E ''Additional section, IANA mismatch\<newline>''
             ''Additional section, Yeti mismatch\<newline>'' io yo)" for io yo
    by (auto simp: section_diffs_def starts_no_skip_def)
  have "starts_no_skip s" if "compare_resp E iana yeti = Inr s" for s
    using that assms unfolding compare_resp_def
    by (auto split: sum.splits prod.splits
        intro!: starts_no_skip_append starts_no_skip_header starts_no_skip_soa a n x)
  from this [OF r] show False by (simp add: starts_no_skip_def)
qed

text \<open>
  C9. For a message with a question, \<open>skip_comparison\<close> answers whether the lowercased
  question name is one of the names of the skip policy. When it is, \<open>compare_resp\<close>
  returns the one line \<open>Skipping query\<close>, whatever the other message and the codec
  are. When it is not, the skip path is not taken: \<open>skip_comparison\<close> is false and
  what \<open>compare_resp\<close> returns is not that line.
\<close>

theorem skip_comparison_policy:
  assumes "Question iana = q # qs"
  shows "skip_comparison iana = Inr (skip_policy (ToLower (Question.Name q)))
         \<and> (skip_policy (ToLower (Question.Name q)) \<longrightarrow>
              compare_resp E iana yeti = Inr ''Skipping query\<newline>'')
         \<and> (\<not> skip_policy (ToLower (Question.Name q)) \<longrightarrow>
              compare_resp E iana yeti \<noteq> Inr ''Skipping query\<newline>'')"
proof -
  have s: "skip_comparison iana = Inr (skip_policy (ToLower (Question.Name q)))"
    using assms by (simp add: skip_comparison_def skip_policy_def HasSuffix_def Let_def)
  show ?thesis
  proof (cases "skip_policy (ToLower (Question.Name q))")
    case True
    then show ?thesis using s by (simp add: compare_resp_def)
  next
    case False
    then show ?thesis using s compare_resp_not_skip_line [of iana E yeti] by simp
  qed
qed

theorem skip_comparison_policy_witness:
  "Question (example_question ''A.Root-Servers.NET.'')
     = [\<lparr>Question.Name = ''A.Root-Servers.NET.'', Qtype = 1, Qclass = 1\<rparr>]
   \<and> skip_policy (ToLower ''A.Root-Servers.NET.'')
   \<and> compare_resp example_env (example_question ''A.Root-Servers.NET.'') new_Msg
       = Inr ''Skipping query\<newline>''
   \<and> Question (example_question ''arpa.'') = [\<lparr>Question.Name = ''arpa.'', Qtype = 1, Qclass = 1\<rparr>]
   \<and> \<not> skip_policy (ToLower ''arpa.'')
   \<and> skip_comparison (example_question ''arpa.'') = Inr False
   \<and> compare_resp example_env (example_question ''arpa.'') new_Msg
       \<noteq> Inr ''Skipping query\<newline>''"
proof -
  have q1: "Question (example_question ''A.Root-Servers.NET.'')
            = \<lparr>Question.Name = ''A.Root-Servers.NET.'', Qtype = 1, Qclass = 1\<rparr> # []"
    by (simp add: example_question_def)
  have p1: "skip_policy (ToLower (Question.Name
              \<lparr>Question.Name = ''A.Root-Servers.NET.'', Qtype = 1, Qclass = 1\<rparr>))"
    by code_simp
  have q2: "Question (example_question ''arpa.'')
            = \<lparr>Question.Name = ''arpa.'', Qtype = 1, Qclass = 1\<rparr> # []"
    by (simp add: example_question_def)
  have p2: "\<not> skip_policy (ToLower (Question.Name
              \<lparr>Question.Name = ''arpa.'', Qtype = 1, Qclass = 1\<rparr>))"
    by code_simp
  show ?thesis
    using skip_comparison_policy [OF q1, of example_env new_Msg] p1
      skip_comparison_policy [OF q2, of example_env new_Msg] p2 q1 q2
    by simp
qed

section \<open>Properties of the stub resolver\<close>

text \<open>
  C5, as amended. When a query identifier has been drawn, \<open>DnsQuery\<close> first sends the
  query over UDP; it sends the same query over TCP exactly when the UDP exchange gave
  no error other than the truncation error and its response is truncated or has a
  response code other than \<open>NOERROR\<close>; any other error of the UDP exchange is
  returned, with no TCP exchange.
\<close>

theorem DnsQuery_transports:
  "fst (DnsQuery Exch (Inr n) server q) =
     (if udp_unsuccessful (Exch UDP (q\<lparr>Id := n\<rparr>) server)
      then [(UDP, q\<lparr>Id := n\<rparr>), (TCP, q\<lparr>Id := n\<rparr>)]
      else [(UDP, q\<lparr>Id := n\<rparr>)])
   \<and> (\<forall>r rtt err. Exch UDP (q\<lparr>Id := n\<rparr>) server = (r, rtt, Some err) \<and> err \<noteq> ErrTruncated
        \<longrightarrow> DnsQuery Exch (Inr n) server q
              = ([(UDP, q\<lparr>Id := n\<rparr>)], q\<lparr>Id := n\<rparr>, Inr (None, 0, Some err)))"
  by (auto simp: DnsQuery_def udp_unsuccessful_def Let_def split: prod.splits option.splits)

theorem DnsQuery_transports_witness:
  "nxdomain_Exchange UDP ((example_question ''example.com.'')\<lparr>Id := 7\<rparr>) ''[2001:db8::53]:53''
     = (Some ((example_question ''example.com.'')\<lparr>Id := 7, Response := True, Rcode := 3\<rparr>), 10, None)
   \<and> map fst (fst (DnsQuery nxdomain_Exchange (Inr 7) ''[2001:db8::53]:53''
                     (example_question ''example.com.''))) = [UDP, TCP]"
proof -
  have u: "udp_unsuccessful (nxdomain_Exchange UDP ((example_question ''example.com.'')\<lparr>Id := 7\<rparr>)
             ''[2001:db8::53]:53'')"
    by (simp add: udp_unsuccessful_def nxdomain_Exchange_def RcodeSuccess_def)
  show ?thesis
    using u DnsQuery_transports [of nxdomain_Exchange 7 "''[2001:db8::53]:53''"
        "example_question ''example.com.''"]
    by (simp add: nxdomain_Exchange_def)
qed

text \<open>
  C5 as stated fails: the UDP exchange returns a response with the code \<open>NXDOMAIN\<close>
  that is not truncated, without error, and the query is sent again over TCP.
\<close>

theorem DnsQuery_counterexample:
  "\<not> udp_truncated (nxdomain_Exchange UDP ((example_question ''example.com.'')\<lparr>Id := 7\<rparr>)
        ''[2001:db8::53]:53'')
   \<and> map fst (fst (DnsQuery nxdomain_Exchange (Inr 7) ''[2001:db8::53]:53''
                     (example_question ''example.com.''))) = [UDP, TCP]"
  by (simp add: DnsQuery_def nxdomain_Exchange_def udp_truncated_def RcodeSuccess_def Let_def
      example_question_def new_Msg_def)

section \<open>Properties of the frame reader\<close>

lemma BigEndian_snoc: "BigEndian (bs @ [b]) = BigEndian bs * 256 + of_char b"
  by (simp add: BigEndian_def)

lemma length_BigEndian_bytes: "length (BigEndian_bytes n v) = n"
  by (induction n arbitrary: v) auto

lemma BigEndian_bytes_inverse: "BigEndian (BigEndian_bytes n v) = v mod 256 ^ n"
proof (induction n arbitrary: v)
  case 0
  then show ?case by (simp add: BigEndian_def)
next
  case (Suc n)
  have "v mod (256 * 256 ^ n) = 256 * (v div 256 mod 256 ^ n) + v mod 256"
    by (simp add: mod_mult2_eq)
  then show ?case using Suc [of "v div 256"] by (simp add: BigEndian_snoc)
qed

lemma read_bytes_ok: "length xs = n \<Longrightarrow> read_bytes n msg (xs @ rest) = (Inr xs, rest)"
  by (auto simp: read_bytes_def Read_def)

lemma binary_Read_ok:
  "0 < n \<Longrightarrow> v < 256 ^ n \<Longrightarrow> binary_Read n (BigEndian_bytes n v @ rest) = (Inr v, rest)"
  using length_BigEndian_bytes [of n v] BigEndian_bytes_inverse [of n v]
  by (cases "BigEndian_bytes n v") (auto simp: binary_Read_def)

lemma bind_read_bytes:
  "length xs = n \<Longrightarrow> f xs rest = res \<Longrightarrow> bind (read_bytes n msg) f (xs @ rest) = res"
  by (simp add: bind_def read_bytes_ok)

lemma bind_binary_Read:
  "0 < n \<Longrightarrow> v < 256 ^ n \<Longrightarrow> f v rest = res
   \<Longrightarrow> bind (binary_Read n) f (BigEndian_bytes n v @ rest) = res"
  by (simp add: bind_def binary_Read_ok)

text \<open>A well-formed frame at the head of the input is read as its record.\<close>

lemma read_frame:
  assumes "frame_ok family transport address query_at query_bytes answer_at answer_bytes"
  shows "read_next_message Unpack
           (frame family transport address query_at query_bytes answer_at answer_bytes @ rest)
         = (Inr (captured Unpack family transport address query_at query_bytes answer_at
                   answer_bytes), rest)"
proof -
  obtain qs qn where q: "query_at = (qs, qn)" by (cases query_at)
  obtain as an where a: "answer_at = (as, an)" by (cases answer_at)
  have fam: "\<not> (family \<noteq> CHR ''4'' \<and> family \<noteq> CHR ''6'')"
    and tr: "\<not> (transport \<noteq> CHR ''u'' \<and> transport \<noteq> CHR ''t'')"
    and len: "length address = (if (if family = CHR ''4'' then 4 else 6) = (4::nat) then 4 else 16)"
    and b: "qs < 256 ^ 4" "qn < 256 ^ 4" "as < 256 ^ 4" "an < 256 ^ 4"
      "length query_bytes < 256 ^ 2" "length answer_bytes < 256 ^ 2"
    using assms by (auto simp: frame_ok_def q a)
  show ?thesis
    unfolding frame_def read_next_message_def captured_def q a fst_conv snd_conv append_assoc
    apply (rule bind_read_bytes, simp)
    apply (simp only: if_False simp_thms)
    apply (rule bind_read_bytes, simp)
    apply (simp only: nth_Cons_0 Let_def fam if_False)
    apply (rule bind_read_bytes, simp)
    apply (simp only: nth_Cons_0 Let_def tr if_False)
    apply (rule bind_read_bytes, rule len)
    apply (rule bind_binary_Read, simp, rule b)
    apply (rule bind_binary_Read, simp, rule b)
    apply (rule bind_binary_Read, simp, rule b)
    apply (rule bind_read_bytes, rule refl)
    apply (rule bind_binary_Read, simp, rule b)
    apply (rule bind_binary_Read, simp, rule b)
    apply (rule bind_binary_Read, simp, rule b)
    apply (rule bind_read_bytes, rule refl)
    apply (simp only: return_def)
    done
qed

lemma message_reader_empty: "message_reader Unpack [] = ([None], Reader_returns)"
  by (simp add: read_next_message_def bind_def read_bytes_def Read_def)

text \<open>
  C6 fails on the source. The input ends right after the magic of a record: the read
  of the family byte returns \<open>io.EOF\<close>, \<open>read_next_message\<close> returns it as it is, and
  \<open>message_reader\<close> takes it for the end of the input: it sends nil and returns, and
  nothing is fatal. An input that ends inside a field is fatal, as the claim says.
\<close>

theorem message_reader_eof_after_magic:
  "message_reader Unpack ''ymmv'' = ([None], Reader_returns)
   \<and> message_reader Unpack ''ymm''
       = ([], Fatal (errors_New ''Only read 3 of 4 magic bytes''))"
proof -
  have d: "digits (Suc (Suc (Suc 0))) = ''3''" by code_simp
  show ?thesis
    by (simp add: read_next_message_def bind_def read_bytes_def Read_def d)
qed

section \<open>Properties of the orchestrator\<close>

text \<open>
  C7 fails on the source. Whatever the main loop receives, and so after the nil
  message that signals the end of the input, it stays in the \<open>for\<close> statement: it
  never reaches the loop that drains the outstanding reports, and \<open>main\<close> never
  returns.
\<close>

theorem main_loop_never_left: "place (main_run evs) = Main_loop"
proof -
  have "place (foldl main_step st evs) = Main_loop" if "place st = Main_loop" for st
    using that
  proof (induction evs arbitrary: st)
    case Nil
    then show ?case by simp
  next
    case (Cons ev evs)
    have "place (main_step st ev) = Main_loop"
      using Cons.prems by (simp split: event.splits option.splits)
    then show ?case using Cons.IH by simp
  qed
  then show ?thesis by (simp add: main_run_def main_start_def)
qed

text \<open>
  C10. A captured record whose query bytes the codec leaves without a question (as
  the empty message of a failed \<open>Unpack\<close>) is read without error; with at least one
  target, its replay panics at the first access to \<open>Question[0]\<close>, and \<open>compare_resp\<close>
  panics in the same way on a first message without a question.
\<close>

theorem unparsed_query_panics:
  assumes "frame_ok family transport address query_at query_bytes answer_at answer_bytes"
    and "Question (fst (Unpack query_bytes)) = []"
    and "targets \<noteq> []"
  shows "read_next_message Unpack
           (frame family transport address query_at query_bytes answer_at answer_bytes @ rest)
         = (Inr (captured Unpack family transport address query_at query_bytes answer_at
                   answer_bytes), rest)
       \<and> yeti_query W E targets secret clear_names edns_size
           (query (captured Unpack family transport address query_at query_bytes answer_at
                     answer_bytes))
           (answer (captured Unpack family transport address query_at query_bytes answer_at
                      answer_bytes))
         = Inl IndexOutOfRange
       \<and> compare_resp E (fst (Unpack query_bytes)) yeti = Inl IndexOutOfRange"
proof -
  obtain t ts where t: "targets = t # ts" using assms(3) by (cases targets) auto
  have "yeti_query W E targets secret clear_names edns_size (fst (Unpack query_bytes)) resp
        = Inl IndexOutOfRange" for resp
    using assms(2) by (simp add: yeti_query_def t)
  moreover have "compare_resp E (fst (Unpack query_bytes)) yeti = Inl IndexOutOfRange"
    using assms(2) by (simp add: compare_resp_def skip_comparison_def)
  ultimately show ?thesis using read_frame [OF assms(1)] by (simp add: captured_def)
qed

theorem unparsed_query_panics_witness:
  "frame_ok (CHR ''4'') (CHR ''u'') ''abcd'' (1, 2) ''junk'' (3, 4) ''more''
   \<and> Question (fst (failing_Unpack ''junk'')) = []
   \<and> [example_target] \<noteq> []
   \<and> fst (read_next_message failing_Unpack
             (frame (CHR ''4'') (CHR ''u'') ''abcd'' (1, 2) ''junk'' (3, 4) ''more'' @ ''tail''))
       = Inr (captured failing_Unpack (CHR ''4'') (CHR ''u'') ''abcd'' (1, 2) ''junk'' (3, 4) ''more'')
   \<and> yeti_query example_world example_env [example_target] None False 4093
        (fst (failing_Unpack ''junk'')) (fst (failing_Unpack ''more'')) = Inl IndexOutOfRange"
proof -
  have f: "frame_ok (CHR ''4'') (CHR ''u'') ''abcd'' (1, 2) ''junk'' (3, 4) ''more''"
    by (simp add: frame_ok_def)
  have u: "Question (fst (failing_Unpack ''junk'')) = []"
    by (simp add: failing_Unpack_def new_Msg_def)
  have t: "[example_target] \<noteq> []" by simp
  show ?thesis
    using f u t
      unparsed_query_panics [where Unpack = failing_Unpack and query_bytes = "''junk''"
        and answer_bytes = "''more''" and family = "CHR ''4''" and transport = "CHR ''u''"
        and address = "''abcd''" and query_at = "(1, 2)" and answer_at = "(3, 4)"
        and targets = "[example_target]" and rest = "''tail''" and W = example_world
        and E = example_env and secret = None and clear_names = False and edns_size = 4093
        and yeti = new_Msg]
    by (simp add: captured_def)
qed

section \<open>The matching of the answer and authority sections\<close>

lemma yeti_loop_panic:
  "\<not> list_all assertion_holds yeti \<Longrightarrow> yeti_loop yeti st = Inl TypeAssertion"
proof (induction yeti arbitrary: st)
  case Nil
  then show ?case by simp
next
  case (Cons rr yeti)
  obtain yo s where st: "st = (yo, s)" by (cases st)
  show ?case
  proof (cases "assertion_holds rr")
    case True
    then show ?thesis using Cons unfolding st
      by (cases rr) (auto simp: assertion_holds_def root_soa_typed_def)
  next
    case False
    then show ?thesis unfolding st
      by (cases rr) (auto simp: assertion_holds_def root_soa_typed_def)
  qed
qed

lemma yeti_loop_ok:
  "list_all assertion_holds yeti \<Longrightarrow>
   yeti_loop yeti (yeti_only, s) = Inr (yeti_only @ general yeti, root_soa yeti s)"
proof (induction yeti arbitrary: yeti_only s)
  case Nil
  then show ?case by (simp add: general_def)
next
  case (Cons rr yeti)
  then show ?case
    by (cases rr) (auto simp: general_def root_soa_typed_def assertion_holds_def)
qed

lemma iana_loop_panic:
  "\<not> list_all assertion_holds iana \<Longrightarrow> iana_loop E iana st = Inl TypeAssertion"
proof (induction iana arbitrary: st)
  case Nil
  then show ?case by simp
next
  case (Cons rr iana)
  obtain io yo s where st: "st = (io, yo, s)" by (cases st)
  show ?case
  proof (cases "assertion_holds rr")
    case True
    then show ?thesis using Cons unfolding st
      by (cases rr) (auto simp: assertion_holds_def root_soa_typed_def split: option.splits)
  next
    case False
    then show ?thesis unfolding st
      by (cases rr) (auto simp: assertion_holds_def root_soa_typed_def dns_consts)
  qed
qed

lemma iana_loop_ok:
  "list_all assertion_holds iana \<Longrightarrow>
   iana_loop E iana (iana_only, yeti_only, s)
   = Inr (iana_only @ residual E (general iana) yeti_only,
          remaining E (general iana) yeti_only, root_soa iana s)"
proof (induction iana arbitrary: iana_only yeti_only s)
  case Nil
  then show ?case by (simp add: general_def)
next
  case (Cons rr iana)
  then show ?case
    by (cases rr)
      (auto simp: general_def root_soa_typed_def assertion_holds_def dns_consts
        split: option.splits)
qed

lemma compare_section_char:
  "compare_section E iana yeti
   = (if list_all assertion_holds yeti \<and> list_all assertion_holds iana
      then Inr (residual E (general iana) (general yeti),
                remaining E (general iana) (general yeti),
                root_soa iana None, root_soa yeti None)
      else Inl TypeAssertion)"
proof (cases "list_all assertion_holds yeti")
  case False
  then show ?thesis by (simp add: compare_section_def yeti_loop_panic)
next
  case True
  show ?thesis
  proof (cases "list_all assertion_holds iana")
    case False
    then show ?thesis using True by (simp add: compare_section_def yeti_loop_ok iana_loop_panic)
  next
    case True': True
    then show ?thesis using True by (simp add: compare_section_def yeti_loop_ok iana_loop_ok)
  qed
qed

lemma remove_match_None:
  "remove_match E x ys = None \<longleftrightarrow> match_key E x \<notin> set (map (match_key E) ys)"
  by (induction ys) (auto simp: match_key_def)

lemma remove_match_Some:
  "remove_match E x ys = Some ys' \<Longrightarrow>
   match_key E x \<in># mset (map (match_key E) ys)
   \<and> mset (map (match_key E) ys') = mset (map (match_key E) ys) - {#match_key E x#}"
proof (induction ys arbitrary: ys')
  case Nil
  then show ?case by simp
next
  case (Cons y ys)
  show ?case
  proof (cases "match_key E x = match_key E y")
    case True
    then show ?thesis using Cons.prems by (simp add: match_key_def)
  next
    case False
    then obtain zs where zs: "remove_match E x ys = Some zs" "ys' = y # zs"
      using Cons.prems by (auto simp: match_key_def)
    then show ?thesis using Cons.IH [OF zs(1)] False by simp
  qed
qed

lemma residual_drop_matched:
  "residual E xs ys = drop_matched E (mset (map (match_key E) ys)) xs"
proof (induction xs arbitrary: ys)
  case Nil
  then show ?case by simp
next
  case (Cons x xs)
  show ?case
  proof (cases "remove_match E x ys")
    case None
    then show ?thesis using Cons remove_match_None [of E x ys] by simp
  next
    case (Some ys')
    then show ?thesis using Cons [of ys'] remove_match_Some [OF Some] by simp
  qed
qed

lemma drop_matched_add:
  "drop_matched E (add_mset (match_key E y) M) xs
   = drop_matched E M (case remove_match E y xs of Some xs' \<Rightarrow> xs' | None \<Rightarrow> xs)"
proof (induction xs arbitrary: M)
  case Nil
  then show ?case by simp
next
  case (Cons x xs)
  show ?case
  proof (cases "match_key E y = match_key E x")
    case True
    then show ?thesis by (simp add: match_key_def)
  next
    case False
    then have ne: "ToLower (rr_String E y) \<noteq> ToLower (rr_String E x)"
      by (simp add: match_key_def)
    show ?thesis
    proof (cases "match_key E x \<in># M")
      case True
      have "add_mset (match_key E y) M - {#match_key E x#}
            = add_mset (match_key E y) (M - {#match_key E x#})"
        using True by simp
      then show ?thesis using True False ne Cons [of "M - {#match_key E x#}"]
        by (simp split: option.splits)
    next
      case False': False
      then show ?thesis using False ne Cons [of M] by (simp split: option.splits)
    qed
  qed
qed

lemma remaining_drop_matched:
  "remaining E ys xs = drop_matched E (mset (map (match_key E) ys)) xs"
proof (induction ys arbitrary: xs)
  case Nil
  have "drop_matched E {#} xs = xs" by (induction xs) auto
  then show ?case by simp
next
  case (Cons y ys)
  show ?case using Cons drop_matched_add [of E y "mset (map (match_key E) ys)" xs]
    by (simp split: option.splits)
qed

lemma residual_remaining: "residual E xs ys = remaining E ys xs"
  by (simp add: residual_drop_matched remaining_drop_matched)

lemma drop_matched_all:
  "mset (map (match_key E) xs) \<subseteq># M \<Longrightarrow> drop_matched E M xs = []"
proof (induction xs arbitrary: M)
  case Nil
  then show ?case by simp
next
  case (Cons x xs)
  then have "match_key E x \<in># M" by (simp add: insert_subset_eq_iff)
  moreover have "mset (map (match_key E) xs) \<subseteq># M - {#match_key E x#}"
    using Cons.prems by (simp add: insert_subset_eq_iff)
  ultimately show ?case using Cons.IH by simp
qed

lemma compare_section_self:
  "compare_section E xs xs
   = (if list_all assertion_holds xs
      then Inr ([], [], root_soa xs None, root_soa xs None) else Inl TypeAssertion)"
  by (simp add: compare_section_char residual_remaining [symmetric] residual_drop_matched
      drop_matched_all)

lemma compare_section_swap:
  "compare_section E yeti iana
   = (case compare_section E iana yeti of
        Inl p \<Rightarrow> Inl p
      | Inr (iana_only, yeti_only, iana_soa, yeti_soa) \<Rightarrow>
          Inr (yeti_only, iana_only, yeti_soa, iana_soa))"
  by (auto simp: compare_section_char residual_remaining)

section \<open>The keys of the RRsets\<close>

lemma parse_nat_snoc: "parse_nat (s @ [c]) = 10 * parse_nat s + (of_char c - 48)"
  by (simp add: parse_nat_def)

lemma of_char_digit: "d < 10 \<Longrightarrow> of_char (char_of (48 + d)) = (48 + d :: nat)"
  by simp

lemma parse_nat_digits: "parse_nat (digits n) = n"
proof (induction n rule: digits.induct)
  case (1 n)
  show ?case
  proof (cases "n < 10")
    case True
    then show ?thesis by (subst digits.simps) (simp add: parse_nat_def)
  next
    case False
    have "n mod 10 < 10" by simp
    then have "of_char (char_of (48 + n mod 10)) = (48 + n mod 10 :: nat)" by (rule of_char_digit)
    then show ?thesis using False 1 by (subst digits.simps) (simp add: parse_nat_snoc)
  qed
qed

lemma parse_nat_zeros: "parse_nat (replicate k (CHR ''0'') @ s) = parse_nat s"
proof -
  have "foldl (\<lambda>a c. 10 * a + (of_char c - 48)) 0 (replicate k (CHR ''0'')) = (0::nat)"
    by (induction k) simp_all
  then show ?thesis by (simp add: parse_nat_def)
qed

lemma digit_not_underscore: "(d::nat) < 10 \<Longrightarrow> char_of (48 + d) \<noteq> CHR ''_''"
proof
  assume "d < 10" and "char_of (48 + d) = CHR ''_''"
  then have "of_char (char_of (48 + d)) = (of_char (CHR ''_'') :: nat)" by simp
  then show False using \<open>d < 10\<close> by simp
qed

lemma digits_no_underscore: "CHR ''_'' \<notin> set (digits n)"
proof (induction n rule: digits.induct)
  case (1 n)
  have m: "n mod 10 < 10" by simp
  show ?case
  proof (cases "n < 10")
    case True
    then show ?thesis using digit_not_underscore [of n]
      by (subst digits.simps) (simp add: eq_commute)
  next
    case False
    then show ?thesis using 1 digit_not_underscore [OF m]
      by (subst digits.simps) (simp add: eq_commute)
  qed
qed

lemma key_type_rrset_key: "key_type (rrset_key rr) = Rrtype (Header rr)"
proof -
  have "CHR ''_'' \<notin> set (fmt_06d n)" for n
    using digits_no_underscore [of n] by (auto simp: fmt_06d_def)
  then have "takeWhile (\<lambda>c. c \<noteq> CHR ''_'') (fmt_06d n @ ''_'' @ s) = fmt_06d n" for n s
    by (subst takeWhile_append2) auto
  then show ?thesis
    by (simp add: key_type_def rrset_key_def) (simp add: fmt_06d_def parse_nat_zeros parse_nat_digits)
qed

section \<open>The comparison of the additional section\<close>

lemma set_update_subset: "set (AList.update k v m) \<subseteq> insert (k, v) (set m)"
  by (induction m) auto

lemma keyed_update:
  assumes "keyed m" "v \<noteq> []" "list_all (\<lambda>rr. rrset_key rr = k) v"
  shows "keyed (AList.update k v m)"
proof -
  have "distinct (map fst (AList.update k v m))"
    using assms(1) by (simp add: keyed_def distinct_update)
  moreover have "rs \<noteq> [] \<and> list_all (\<lambda>rr. rrset_key rr = k') rs"
    if "(k', rs) \<in> set (AList.update k v m)" for k' rs
  proof -
    from that set_update_subset [of k v m] have "(k', rs) = (k, v) \<or> (k', rs) \<in> set m" by auto
    then show ?thesis using assms by (auto simp: keyed_def list_all_iff)
  qed
  ultimately show ?thesis by (auto simp: keyed_def list_all_iff)
qed

lemma keyed_lookup:
  "keyed m \<Longrightarrow> map_of m k = Some rs \<Longrightarrow> rs \<noteq> [] \<and> list_all (\<lambda>rr. rrset_key rr = k) rs"
  by (auto simp: keyed_def list_all_iff dest!: map_of_SomeD)

lemma keyed_loop: "keyed m \<Longrightarrow> keyed (extract_rrset_loop xs m)"
proof (induction xs arbitrary: m)
  case Nil
  then show ?case by simp
next
  case (Cons rr xs)
  let ?rr = "set_Name rr (ToLower (RR_Header.Name (Header rr)))"
  let ?key = "fmt_06d (Rrtype (Header ?rr)) @ ''_'' @ RR_Header.Name (Header ?rr)"
  let ?old = "case map_of m ?key of None \<Rightarrow> [] | Some rrset \<Rightarrow> rrset"
  have k: "rrset_key ?rr = ?key" by (simp add: rrset_key_def)
  have "list_all (\<lambda>r. rrset_key r = ?key) ?old"
    using keyed_lookup [OF Cons.prems, of ?key] by (auto split: option.splits)
  then have "keyed (AList.update ?key (?old @ [?rr]) m)"
    using Cons.prems k by (intro keyed_update) auto
  then show ?case using Cons.IH by (simp add: Let_def)
qed

lemma keyed_extract:
  assumes "sort_permutes E"
  shows "keyed (extract_rrset E xs)"
proof -
  have k: "keyed (extract_rrset_loop xs [])" by (rule keyed_loop) (simp add: keyed_def)
  have s: "set (sort_Sort E lt rs) = set rs" for lt rs
    using assms by (metis sort_permutes_def set_mset_mset)
  have f: "map fst (extract_rrset E xs) = map fst (extract_rrset_loop xs [])"
    by (simp add: extract_rrset_def split_def)
  have d: "distinct (map fst (extract_rrset E xs))"
    using k by (simp add: f keyed_def)
  have "rs' \<noteq> [] \<and> list_all (\<lambda>rr. rrset_key rr = k') rs'"
    if "(k', rs') \<in> set (extract_rrset E xs)" for k' rs'
  proof -
    from that obtain rs where rs: "(k', rs) \<in> set (extract_rrset_loop xs [])"
      "rs' = sort_Sort E (Less E) rs"
      by (auto simp: extract_rrset_def)
    then have "rs \<noteq> []" "list_all (\<lambda>rr. rrset_key rr = k') rs"
      using k by (auto simp: keyed_def list_all_iff)
    moreover have "set rs' = set rs" using rs(2) s by simp
    ultimately show ?thesis by (metis list_all_iff set_empty)
  qed
  then show ?thesis using d by (auto simp: keyed_def list_all_iff)
qed


lemma compare_additional_loop_char:
  "list_all (\<lambda>(k, rrset). rrset \<noteq> [] \<and> list_all (\<lambda>rr. rrset_key rr = k) rrset) entries \<Longrightarrow>
   compare_additional_loop entries ym (a, b)
   = Inr (a @ concat (map snd (filter (differs ym) entries)),
          b @ concat (map (\<lambda>e. the (map_of ym (fst e))) (filter (differs ym) entries)))"
proof (induction entries arbitrary: a b)
  case Nil
  then show ?case by simp
next
  case (Cons e entries)
  obtain k rs where e: "e = (k, rs)" by (cases e)
  obtain r0 rest where rs: "rs = r0 # rest" using Cons.prems e by (cases rs) auto
  have t: "Rrtype (Header r0) = key_type k"
    using Cons.prems e rs key_type_rrset_key [of r0] by simp
  have ih: "\<And>a b. compare_additional_loop entries ym (a, b)
   = Inr (a @ concat (map snd (filter (differs ym) entries)),
          b @ concat (map (\<lambda>e. the (map_of ym (fst e))) (filter (differs ym) entries)))"
    using Cons by simp
  have d: "differs ym (k, r0 # rest) \<longleftrightarrow>
             key_type k \<noteq> TypeOPT \<and> key_type k \<noteq> TypeRRSIG
             \<and> (\<exists>ys. map_of ym k = Some ys \<and> r0 # rest \<noteq> ys)"
    by (auto simp: differs_def split: option.splits)
  have step: "compare_additional_loop ((k, r0 # rest) # entries) ym (a, b)
      = (if differs ym (k, r0 # rest)
         then compare_additional_loop entries ym
                (a @ r0 # rest, b @ the (map_of ym k))
         else compare_additional_loop entries ym (a, b))"
    unfolding d by (cases "map_of ym k") (simp_all add: t)
  show ?case
  proof (cases "differs ym (k, r0 # rest)")
    case True
    have l: "compare_additional_loop (e # entries) ym (a, b)
             = compare_additional_loop entries ym (a @ r0 # rest, b @ the (map_of ym k))"
      unfolding e rs step using True by (simp only: if_True)
    have f: "filter (differs ym) (e # entries) = (k, r0 # rest) # filter (differs ym) entries"
      unfolding e rs using True by simp
    show ?thesis unfolding l f ih by simp
  next
    case False
    have l: "compare_additional_loop (e # entries) ym (a, b)
             = compare_additional_loop entries ym (a, b)"
      unfolding e rs step using False by (simp only: if_False)
    have f: "filter (differs ym) (e # entries) = filter (differs ym) entries"
      unfolding e rs using False by simp
    show ?thesis unfolding l f ih by simp
  qed
qed


lemma map_of_keyed: "keyed m \<Longrightarrow> (k, rs) \<in> set m \<Longrightarrow> map_of m k = Some rs"
  by (simp add: keyed_def)

lemma compare_additional_self:
  assumes "sort_permutes E" "range_visits_all E"
  shows "compare_additional E xs xs = Inr ([], [])"
proof -
  let ?m = "extract_rrset E xs"
  have k: "keyed ?m" using assms(1) by (rule keyed_extract)
  have s: "set (map_range E ?m) = set ?m"
    using assms(2) by (metis range_visits_all_def set_mset_mset)
  have la: "list_all (\<lambda>(k, rrset). rrset \<noteq> [] \<and> list_all (\<lambda>rr. rrset_key rr = k) rrset)
              (map_range E ?m)"
    using k s by (auto simp: keyed_def list_all_iff)
  have "\<not> differs ?m e" if "e \<in> set (map_range E ?m)" for e
  proof -
    obtain key rs where e: "e = (key, rs)" by (cases e)
    then have "(key, rs) \<in> set ?m" using that s by simp
    then have "map_of ?m key = Some rs" by (rule map_of_keyed [OF k])
    then show ?thesis by (simp add: differs_def e)
  qed
  then have "filter (differs ?m) (map_range E ?m) = []" by (simp add: filter_empty_conv)
  then show ?thesis
    using compare_additional_loop_char [OF la, of ?m "[]" "[]"]
    by (simp add: compare_additional_def)
qed

lemma compare_soa_self: "compare_soa E s s = []"
  by (cases s) (simp_all add: compare_soa_def)

lemma header_diffs_self: "header_diffs E x x = []"
  by (simp add: header_diffs_def)

lemma well_typed_assertion: "well_typed rr \<Longrightarrow> assertion_holds rr"
  by (cases rr) (auto simp: well_typed_def assertion_holds_def root_soa_typed_def)

lemma sorted_assertions:
  assumes "sort_permutes E" "list_all well_typed xs"
  shows "list_all assertion_holds (sort_Sort E lt xs)"
proof -
  have "set (sort_Sort E lt xs) = set xs"
    using assms(1) by (metis sort_permutes_def set_mset_mset)
  then show ?thesis using assms(2) by (auto simp: list_all_iff well_typed_assertion)
qed

section \<open>The example environment\<close>

lemma mset_example_insert: "mset (example_insert lt x ys) = add_mset x (mset ys)"
  by (induction ys) auto

lemma mset_example_sort: "mset (example_sort lt xs) = mset xs"
  by (induction xs) (auto simp: example_sort_def mset_example_insert)

lemma example_sort_permutes: "sort_permutes example_env"
  by (simp add: sort_permutes_def example_env_def mset_example_sort)

lemma example_range_visits_all: "range_visits_all example_env"
  by (simp add: range_visits_all_def example_env_def)

section \<open>A response compared with itself\<close>

text \<open>
  C3. For every message of the codec whose question does not trigger the skip policy,
  \<open>compare_resp\<close> of the message with itself returns the empty report. What is
  used of the world outside: \<open>sort.Sort\<close> returns a permutation, \<open>range\<close> visits
  every entry of a map, and the records of the message have the concrete type of
  their header type.
\<close>

theorem compare_resp_self_empty:
  assumes "sort_permutes E" "range_visits_all E" "well_typed_msg x"
    and "skip_comparison x = Inr False"
  shows "compare_resp E x x = Inr []"
proof -
  have a: "list_all assertion_holds (sort_Sort E (Less E) (Answer x))"
    and n: "list_all assertion_holds (sort_Sort E (Less E) (Ns x))"
    using assms(1,3) by (auto simp: well_typed_msg_def intro: sorted_assertions)
  show ?thesis
    using assms(4) a n
    by (simp add: compare_resp_def compare_section_self compare_additional_self [OF assms(1,2)]
        compare_soa_self header_diffs_self section_diffs_def)
qed


theorem compare_resp_self_empty_witness:
  "sort_permutes example_env \<and> range_visits_all example_env
   \<and> well_typed_msg example_response
   \<and> skip_comparison example_response = Inr False
   \<and> compare_resp example_env example_response example_response = Inr []"
proof -
  have w: "well_typed_msg example_response"
    by (simp add: well_typed_msg_def example_response_def well_typed_def example_header_def
        dns_consts)
  have s: "skip_comparison example_response = Inr False"
    by (simp add: skip_comparison_def example_response_def example_question_def new_Msg_def
        ToLower_def ToLower_char_def HasSuffix_def suffix_def)
  show ?thesis
    using example_sort_permutes example_range_visits_all w s
      compare_resp_self_empty [OF example_sort_permutes example_range_visits_all w s]
    by simp
qed

section \<open>Swapping the two sides\<close>

lemma keyed_as_map:
  assumes "keyed m"
  shows "mset m = image_mset (\<lambda>k. (k, the (map_of m k))) (mset_set (fst ` set m))"
proof -
  have d: "distinct (map fst m)" using assms by (simp add: keyed_def)
  have "(fst p, the (map_of m (fst p))) = p" if "p \<in> set m" for p
    using that map_of_is_SomeI [OF d, of "fst p" "snd p"] by simp
  then have "map (\<lambda>p. (fst p, the (map_of m (fst p)))) m = m"
    by (intro map_idI) simp
  then have "map (\<lambda>k. (k, the (map_of m k))) (map fst m) = m"
    by (simp add: comp_def)
  then have "mset m = image_mset (\<lambda>k. (k, the (map_of m k))) (mset (map fst m))"
    by (metis mset_map)
  moreover have "mset (map fst m) = mset_set (fst ` set m)"
    using d by (metis mset_set_set set_map)
  ultimately show ?thesis by simp
qed

lemma mset_concat_map:
  "mset (concat (map f xs)) = sum_mset (image_mset (\<lambda>x. mset (f x)) (mset xs))"
  by (induction xs) auto

lemma differs_sym:
  assumes "keyed a" "keyed b"
  shows "{k \<in> fst ` set a. differs b (k, the (map_of a k))}
         = {k \<in> fst ` set b. differs a (k, the (map_of b k))}"
proof -
  have "k \<in> fst ` set b \<and> differs a (k, the (map_of b k))"
    if "k \<in> fst ` set a" "differs b (k, the (map_of a k))" "keyed a" "keyed b" for a b k
  proof -
    from that(1) obtain xs where xs: "map_of a k = Some xs"
      by (metis domD dom_map_of_conv_image_fst)
    from that(2) xs obtain ys where ys: "map_of b k = Some ys" "xs \<noteq> ys"
      "key_type k \<noteq> TypeOPT" "key_type k \<noteq> TypeRRSIG"
      by (auto simp: differs_def split: option.splits)
    then show ?thesis using xs
      by (auto simp: differs_def dest!: map_of_SomeD intro: rev_image_eqI)
  qed
  then show ?thesis using assms by blast
qed

lemma swapped_mismatches:
  assumes "keyed a" "keyed b" "mset ea = mset a" "mset eb = mset b"
  shows "mset (concat (map snd (filter (differs b) ea)))
         = mset (concat (map (\<lambda>e. the (map_of a (fst e))) (filter (differs a) eb)))"
proof -
  let ?A = "{k \<in> fst ` set a. differs b (k, the (map_of a k))}"
  let ?B = "{k \<in> fst ` set b. differs a (k, the (map_of b k))}"
  have "mset (filter (differs b) ea)
        = image_mset (\<lambda>k. (k, the (map_of a k))) (mset_set ?A)"
    unfolding mset_filter assms(3)
    by (subst keyed_as_map [OF assms(1)]) (simp add: filter_mset_image_mset)
  then have l: "mset (concat (map snd (filter (differs b) ea)))
        = sum_mset (image_mset (\<lambda>k. mset (the (map_of a k))) (mset_set ?A))"
    by (simp add: mset_concat_map image_mset.compositionality comp_def)
  have "mset (filter (differs a) eb)
        = image_mset (\<lambda>k. (k, the (map_of b k))) (mset_set ?B)"
    unfolding mset_filter assms(4)
    by (subst keyed_as_map [OF assms(2)]) (simp add: filter_mset_image_mset)
  then have r: "mset (concat (map (\<lambda>e. the (map_of a (fst e))) (filter (differs a) eb)))
        = sum_mset (image_mset (\<lambda>k. mset (the (map_of a k))) (mset_set ?B))"
    by (simp add: mset_concat_map image_mset.compositionality comp_def)
  show ?thesis unfolding l r differs_sym [OF assms(1,2)] ..
qed

text \<open>
  C8. The comparison of an answer or authority section with the two sides swapped
  gives the same result with the roles swapped: the two lists of unmatched records
  are exchanged, as lists, and so are the two root SOAs (or it panics on both). For
  the additional section, with a \<open>sort.Sort\<close> that returns a permutation and a
  \<open>range\<close> that visits every entry once, both comparisons return; the two results
  are exchanged as multisets, and the set of RRset keys of the mismatching records
  is the same.
\<close>

theorem section_comparison_symmetric:
  assumes "sort_permutes E" "range_visits_all E"
  shows "compare_section E yeti iana
         = (case compare_section E iana yeti of
              Inl p \<Rightarrow> Inl p
            | Inr (iana_only, yeti_only, iana_soa, yeti_soa) \<Rightarrow>
                Inr (yeti_only, iana_only, yeti_soa, iana_soa))
       \<and> (case (compare_additional E iana' yeti', compare_additional E yeti' iana') of
             (Inr (iana_only, yeti_only), Inr (yeti_only', iana_only')) \<Rightarrow>
               mset iana_only' = mset iana_only \<and> mset yeti_only' = mset yeti_only
               \<and> rrset_key ` set (iana_only' @ yeti_only') = rrset_key ` set (iana_only @ yeti_only)
           | _ \<Rightarrow> False)"
proof -
  let ?im = "extract_rrset E iana'" and ?ym = "extract_rrset E yeti'"
  have ki: "keyed ?im" and ky: "keyed ?ym" using assms(1) by (auto intro: keyed_extract)
  have ri: "mset (map_range E ?im) = mset ?im" and ry: "mset (map_range E ?ym) = mset ?ym"
    using assms(2) by (auto simp: range_visits_all_def)
  have la: "list_all (\<lambda>(k, rrset). rrset \<noteq> [] \<and> list_all (\<lambda>rr. rrset_key rr = k) rrset)
              (map_range E m)" if "keyed m" "mset (map_range E m) = mset m" for m
  proof -
    have "set (map_range E m) = set m" using that(2) by (metis set_mset_mset)
    then show ?thesis using that(1) by (auto simp: keyed_def list_all_iff)
  qed
  let ?io = "concat (map snd (filter (differs ?ym) (map_range E ?im)))"
  let ?yo = "concat (map (\<lambda>e. the (map_of ?ym (fst e))) (filter (differs ?ym) (map_range E ?im)))"
  let ?yo' = "concat (map snd (filter (differs ?im) (map_range E ?ym)))"
  let ?io' = "concat (map (\<lambda>e. the (map_of ?im (fst e))) (filter (differs ?im) (map_range E ?ym)))"
  have c1: "compare_additional E iana' yeti' = Inr (?io, ?yo)"
    using compare_additional_loop_char [OF la [OF ki ri], of ?ym "[]" "[]"]
    by (simp add: compare_additional_def)
  have c2: "compare_additional E yeti' iana' = Inr (?yo', ?io')"
    using compare_additional_loop_char [OF la [OF ky ry], of ?im "[]" "[]"]
    by (simp add: compare_additional_def)
  have m1: "mset ?io' = mset ?io"
    using swapped_mismatches [OF ki ky ri ry] by simp
  have m2: "mset ?yo' = mset ?yo"
    using swapped_mismatches [OF ky ki ry ri] by simp
  have "set (?io' @ ?yo') = set (?io @ ?yo)"
    using m1 m2 by (metis mset_append set_mset_mset)
  then have "(case (compare_additional E iana' yeti', compare_additional E yeti' iana') of
             (Inr (iana_only, yeti_only), Inr (yeti_only', iana_only')) \<Rightarrow>
               mset iana_only' = mset iana_only \<and> mset yeti_only' = mset yeti_only
               \<and> rrset_key ` set (iana_only' @ yeti_only') = rrset_key ` set (iana_only @ yeti_only)
           | _ \<Rightarrow> False)"
    unfolding c1 c2 using m1 m2 by simp
  then show ?thesis using compare_section_swap [of E yeti iana] by blast
qed

section \<open>The comparison on examples\<close>

lemma lower_chars:
  "char_of (97::nat) = CHR ''a''" "char_of (101::nat) = CHR ''e''" "char_of (116::nat) = CHR ''t''"
  "char_of (121::nat) = CHR ''y''" "char_of (112::nat) = CHR ''p''" "char_of (110::nat) = CHR ''n''"
  "char_of (115::nat) = CHR ''s''"
  by code_simp+

lemma example_digits:
  "digits 300 = ''300''" "digits 1 = ''1''" "digits 28 = ''28''" "digits 41 = ''41''"
  "digits 46 = ''46''" "digits 0 = ''0''" "digits 6 = ''6''" "digits (Suc 0) = ''1''"
  "fmt_06d 1 = ''000001''" "fmt_06d (Suc 0) = ''000001''" "fmt_06d 28 = ''000028''"
  "fmt_06d 41 = ''000041''" "fmt_06d 46 = ''000046''"
  by code_simp+

lemma example_compare_section: "compare_section example_env iana_section yeti_section
  = Inr ([Other_RR (example_header ''b.example.'' 1 300) ''192.0.2.2''],
         [Other_RR (example_header ''c.example.'' 1 300) ''192.0.2.3''],
         Some example_soa, Some (example_soa\<lparr>Serial := 2024010102\<rparr>))"
  by (simp add: compare_section_def iana_section_def yeti_section_def example_header_def
      example_env_def example_String_def example_soa_def dns_consts example_digits lower_chars
      ToLower_def ToLower_char_def)

lemma example_compare_additional: "compare_additional example_env iana_extra yeti_extra
  = Inr ([Other_RR (example_header ''ns.example.'' 1 300) ''192.0.2.53''],
         [Other_RR (example_header ''ns.example.'' 1 300) ''192.0.2.54''])"
  by (simp add: compare_additional_def extract_rrset_def iana_extra_def yeti_extra_def
      example_header_def example_env_def example_String_def dns_consts example_digits
      lower_chars ToLower_def ToLower_char_def example_sort_def Less_def Let_def)

theorem section_comparison_symmetric_witness:
  "sort_permutes example_env \<and> range_visits_all example_env
   \<and> compare_section example_env iana_section yeti_section
       = Inr ([Other_RR (example_header ''b.example.'' 1 300) ''192.0.2.2''],
              [Other_RR (example_header ''c.example.'' 1 300) ''192.0.2.3''],
              Some example_soa, Some (example_soa\<lparr>Serial := 2024010102\<rparr>))
   \<and> compare_section example_env yeti_section iana_section
       = Inr ([Other_RR (example_header ''c.example.'' 1 300) ''192.0.2.3''],
              [Other_RR (example_header ''b.example.'' 1 300) ''192.0.2.2''],
              Some (example_soa\<lparr>Serial := 2024010102\<rparr>), Some example_soa)
   \<and> compare_additional example_env iana_extra yeti_extra
       = Inr ([Other_RR (example_header ''ns.example.'' 1 300) ''192.0.2.53''],
              [Other_RR (example_header ''ns.example.'' 1 300) ''192.0.2.54''])
   \<and> compare_additional example_env yeti_extra iana_extra
       = Inr ([Other_RR (example_header ''ns.example.'' 1 300) ''192.0.2.54''],
              [Other_RR (example_header ''ns.example.'' 1 300) ''192.0.2.53''])"
  using example_sort_permutes example_range_visits_all
    example_compare_section example_compare_additional
    section_comparison_symmetric [OF example_sort_permutes example_range_visits_all,
      of yeti_section iana_section iana_extra yeti_extra]
  by (auto split: sum.splits)

end
